theory Spec2Isabelle
  imports Complex_Main
begin

section \<open>Conventions of the embedding\<close>

text \<open>
  The module \<^verbatim>\<open>cython_code/nonlinear.pyx\<close> works on one-dimensional numpy arrays of
  doubles and on C integers. A one-dimensional array is a \<^typ>\<open>real list\<close>; a finite double
  is a \<^typ>\<open>real\<close> (exact arithmetic: rounding, overflow and infinities are outside the
  model). An index is an \<^typ>\<open>int\<close>: the lengths of the arrays of this module stay far
  below the range of a C \<^verbatim>\<open>int\<close>, and memory is not bounded. An integer argument
  declared \<^verbatim>\<open>int\<close> is a C \<^verbatim>\<open>int\<close> of 32 bits: a value outside its range is refused,
  and arithmetic on it wraps around; so does the length that \<^verbatim>\<open>Y2Z\<close> stores in one. Array entries and bounds are numbers: a not-a-number entry, on which every
  comparison is false, is not a value of the model (only the argument \<^verbatim>\<open>meanz\<close> of
  \<^verbatim>\<open>fit_PCI\<close> and what it returns can be not-a-number, see there). Every exception of
  the source is a value of the type \<open>error\<close>, and a function that can raise returns
  \<open>error + 'a\<close>.
\<close>

datatype error =
    AssertionError    \<comment> \<open>a failed \<^verbatim>\<open>assert\<close>\<close>
  | IndexError        \<comment> \<open>an index outside an array\<close>
  | ValueError        \<comment> \<open>\<^verbatim>\<open>min\<close>/\<^verbatim>\<open>max\<close> of an empty array, a negative dimension, \<^verbatim>\<open>np.interp\<close> on bad tables\<close>
  | OverflowError     \<comment> \<open>an integer argument that does not fit a C \<^verbatim>\<open>int\<close>\<close>

text \<open>The range of a C \<^verbatim>\<open>int\<close>, and the value of an integer once stored in one.\<close>

definition c_int_range :: "int \<Rightarrow> bool" where
  "c_int_range k \<longleftrightarrow> - (2 ^ 31) \<le> k \<and> k < 2 ^ 31"

definition c_int_wrap :: "int \<Rightarrow> int" where
  "c_int_wrap k = (k + 2 ^ 31) mod 2 ^ 32 - 2 ^ 31"

fun and_then :: "error + 'a \<Rightarrow> ('a \<Rightarrow> error + 'b) \<Rightarrow> error + 'b" where
  "and_then (Inl e) f = Inl e"
| "and_then (Inr x) f = f x"

text \<open>\<^verbatim>\<open>xs[k]\<close> on an array object: a negative index counts from the end, an index
  outside the array raises.\<close>

definition item :: "real list \<Rightarrow> int \<Rightarrow> error + real" where
  "item xs k =
     (let n = int (length xs); j = (if k < 0 then n + k else k)
      in if 0 \<le> j \<and> j < n then Inr (xs ! nat j) else Inl IndexError)"

text \<open>Comparisons evaluate the left operand, then the right one; \<^verbatim>\<open>or\<close> evaluates its
  right operand only when the left one is false.\<close>

definition lt :: "error + real \<Rightarrow> error + real \<Rightarrow> error + bool" where
  "lt a b = and_then a (\<lambda>x. and_then b (\<lambda>y. Inr (x < y)))"

definition gt :: "error + real \<Rightarrow> error + real \<Rightarrow> error + bool" where
  "gt a b = and_then a (\<lambda>x. and_then b (\<lambda>y. Inr (x > y)))"

definition le :: "error + real \<Rightarrow> error + real \<Rightarrow> error + bool" where
  "le a b = and_then a (\<lambda>x. and_then b (\<lambda>y. Inr (x \<le> y)))"

definition ge :: "error + real \<Rightarrow> error + real \<Rightarrow> error + bool" where
  "ge a b = and_then a (\<lambda>x. and_then b (\<lambda>y. Inr (x \<ge> y)))"

definition or_else :: "error + bool \<Rightarrow> error + bool \<Rightarrow> error + bool" where
  "or_else a b = and_then a (\<lambda>t. if t then Inr True else b)"

text \<open>The builtins \<^verbatim>\<open>min\<close> and \<^verbatim>\<open>max\<close> over an array: the first smallest (largest)
  element, \<^verbatim>\<open>ValueError\<close> on an empty array.\<close>

definition py_min :: "real list \<Rightarrow> error + real" where
  "py_min xs = (case xs of [] \<Rightarrow> Inl ValueError | x # r \<Rightarrow> Inr (foldl (\<lambda>m v. if v < m then v else m) x r))"

definition py_max :: "real list \<Rightarrow> error + real" where
  "py_max xs = (case xs of [] \<Rightarrow> Inl ValueError | x # r \<Rightarrow> Inr (foldl (\<lambda>m v. if v > m then v else m) x r))"

section \<open>Index scans with \<^verbatim>\<open>break\<close>\<close>

text \<open>
  \<^verbatim>\<open>for v in range(k, stop, -1): if c(v): break\<close> and
  \<^verbatim>\<open>for v in range(k, stop): if c(v): break\<close>, with \<^verbatim>\<open>v\<close> a \<^verbatim>\<open>cdef int\<close>.
  The loop variable keeps the value of the last iteration: the index at which the
  condition held, or the last index of the range when it never held. \<open>cur\<close> is the
  value the variable holds before the current iteration; a loop over an empty range
  leaves the variable as it was.
\<close>

function scan_down :: "(int \<Rightarrow> error + bool) \<Rightarrow> int \<Rightarrow> int \<Rightarrow> int \<Rightarrow> error + int" where
  "scan_down c k stop cur =
     (if stop < k then
        (case c k of
           Inl e \<Rightarrow> Inl e
         | Inr t \<Rightarrow> if t then Inr k else scan_down c (k - 1) stop k)
      else Inr cur)"
  by pat_completeness auto
termination
  by (relation "measure (\<lambda>(c, k, stop, cur). nat (k - stop))") auto

function scan_up :: "(int \<Rightarrow> error + bool) \<Rightarrow> int \<Rightarrow> int \<Rightarrow> int \<Rightarrow> error + int" where
  "scan_up c k stop cur =
     (if k < stop then
        (case c k of
           Inl e \<Rightarrow> Inl e
         | Inr t \<Rightarrow> if t then Inr k else scan_up c (k + 1) stop k)
      else Inr cur)"
  by pat_completeness auto
termination
  by (relation "measure (\<lambda>(c, k, stop, cur). nat (stop - k))") auto

section \<open>Control-point locators\<close>

text \<open>
  The three locators declare \<^verbatim>\<open>cdef int i\<close>, \<^verbatim>\<open>j\<close>, \<^verbatim>\<open>ii\<close>, \<^verbatim>\<open>jj\<close> and do not
  initialise them. A variable whose loop runs over an empty range is read with the
  value it happens to hold when the function starts, which nothing in the program
  determines: the model takes these four values as an argument.
\<close>

record locals =
  loc_i :: int
  loc_j :: int
  loc_ii :: int
  loc_jj :: int

subsection \<open>\<^verbatim>\<open>calautorized\<close>\<close>

text \<open>\<^verbatim>\<open>zana[i-1] < zraw[ii] or zana[i-1] > zana[i] or gauss[i-1] < gauss[ii]\<close>\<close>

definition cal_lower_stop :: "real list \<Rightarrow> real list \<Rightarrow> real list \<Rightarrow> int \<Rightarrow> int \<Rightarrow> error + bool" where
  "cal_lower_stop zana zraw gauss ii i =
     or_else (lt (item zana (i - 1)) (item zraw ii))
    (or_else (gt (item zana (i - 1)) (item zana i))
             (lt (item gauss (i - 1)) (item gauss ii)))"

text \<open>\<^verbatim>\<open>zana[j+1] > zraw[jj] or zana[j+1] < zana[j] or gauss[j+1] > gauss[jj]\<close>\<close>

definition cal_upper_stop :: "real list \<Rightarrow> real list \<Rightarrow> real list \<Rightarrow> int \<Rightarrow> int \<Rightarrow> error + bool" where
  "cal_upper_stop zana zraw gauss jj j =
     or_else (gt (item zana (j + 1)) (item zraw jj))
    (or_else (lt (item zana (j + 1)) (item zana j))
             (gt (item gauss (j + 1)) (item gauss jj)))"

text \<open>The optional bounds \<^verbatim>\<open>zpmin=None\<close>, \<^verbatim>\<open>zpmax=None\<close> are \<^typ>\<open>real option\<close>.
  \<^verbatim>\<open>zana.shape[0]/2\<close> divides two integers (the module is Python 2 code), so it is
  the floor of the half.\<close>

definition calautorized ::
  "locals \<Rightarrow> real list \<Rightarrow> real list \<Rightarrow> real list \<Rightarrow> real option \<Rightarrow> real option
     \<Rightarrow> error + (int \<times> int \<times> int \<times> int)" where
  "calautorized u zana zraw gauss zpmin zpmax =
     and_then (case zpmin of None \<Rightarrow> py_min zraw | Some v \<Rightarrow> Inr v) (\<lambda>zpmin'.
     and_then (case zpmax of None \<Rightarrow> py_max zraw | Some v \<Rightarrow> Inr v) (\<lambda>zpmax'.
     and_then (scan_down (\<lambda>jj. lt (item zraw jj) (Inr zpmax')) (int (length zraw) - 1) 0 (loc_jj u)) (\<lambda>jj.
     and_then (scan_up (\<lambda>ii. gt (item zraw ii) (Inr zpmin')) 0 (int (length zraw) - 1) (loc_ii u)) (\<lambda>ii.
     and_then (scan_down (cal_lower_stop zana zraw gauss ii) (int (length zana) div 2) 1 (loc_i u)) (\<lambda>i.
     and_then (scan_up (cal_upper_stop zana zraw gauss jj) (int (length zana) div 2) (int (length zana) - 1) (loc_j u)) (\<lambda>j.
     Inr (i, j, ii, jj)))))))"

subsection \<open>\<^verbatim>\<open>calautorized_blk\<close>\<close>

text \<open>\<^verbatim>\<open>zana[i-1] < zpmin or zana[i-1] > zana[i] or gauss[i-1] < gauss[ii]\<close> and
  \<^verbatim>\<open>zana[j+1] > zpmax or zana[j+1] < zana[j] or gauss[j+1] > gauss[jj]\<close>\<close>

definition blk_lower_stop :: "real list \<Rightarrow> real list \<Rightarrow> real \<Rightarrow> int \<Rightarrow> int \<Rightarrow> error + bool" where
  "blk_lower_stop zana gauss zpmin ii i =
     or_else (lt (item zana (i - 1)) (Inr zpmin))
    (or_else (gt (item zana (i - 1)) (item zana i))
             (lt (item gauss (i - 1)) (item gauss ii)))"

definition blk_upper_stop :: "real list \<Rightarrow> real list \<Rightarrow> real \<Rightarrow> int \<Rightarrow> int \<Rightarrow> error + bool" where
  "blk_upper_stop zana gauss zpmax jj j =
     or_else (gt (item zana (j + 1)) (Inr zpmax))
    (or_else (lt (item zana (j + 1)) (item zana j))
             (gt (item gauss (j + 1)) (item gauss jj)))"

definition calautorized_blk ::
  "locals \<Rightarrow> real list \<Rightarrow> real list \<Rightarrow> real \<Rightarrow> real \<Rightarrow> error + (int \<times> int \<times> int \<times> int)" where
  "calautorized_blk u zana gauss zpmin zpmax =
     (let jj = int (length zana) - 1; ii = 0 in
      and_then (scan_down (blk_lower_stop zana gauss zpmin ii) (int (length zana) div 2) 1 (loc_i u)) (\<lambda>i.
      and_then (scan_up (blk_upper_stop zana gauss zpmax jj) (int (length zana) div 2) (int (length zana) - 1) (loc_j u)) (\<lambda>j.
      Inr (i, j, ii, jj))))"

subsection \<open>\<^verbatim>\<open>findcontrolpoints\<close>\<close>

definition py_assert :: "bool \<Rightarrow> error + unit" where
  "py_assert b = (if b then Inr () else Inl AssertionError)"

definition assert_that :: "error + bool \<Rightarrow> error + unit" where
  "assert_that b = and_then b py_assert"

text \<open>The four scans of \<^verbatim>\<open>findcontrolpoints\<close>, between its opening and its closing
  assertions.\<close>

definition findcontrolpoints_scans ::
  "locals \<Rightarrow> real list \<Rightarrow> real list \<Rightarrow> real \<Rightarrow> real \<Rightarrow> real \<Rightarrow> real
     \<Rightarrow> error + (int \<times> int \<times> int \<times> int)" where
  "findcontrolpoints_scans u zana zraw zpmin zpmax zamin zamax =
     and_then (scan_down (\<lambda>jj. le (item zraw jj) (Inr zpmax)) (int (length zraw) - 1) 0 (loc_jj u)) (\<lambda>jj.
     and_then (scan_up (\<lambda>ii. ge (item zraw ii) (Inr zpmin)) 0 (int (length zraw) - 1) (loc_ii u)) (\<lambda>ii.
     and_then (scan_down (\<lambda>i. le (item zana (i - 1)) (Inr zamin)) (int (length zana) div 2) 1 (loc_i u)) (\<lambda>i.
     and_then (scan_up (\<lambda>j. ge (item zana (j + 1)) (Inr zamax)) (int (length zana) div 2) (int (length zana) - 1) (loc_j u)) (\<lambda>j.
     Inr (i, j, ii, jj)))))"

definition findcontrolpoints ::
  "locals \<Rightarrow> real list \<Rightarrow> real list \<Rightarrow> real list \<Rightarrow> real \<Rightarrow> real \<Rightarrow> real \<Rightarrow> real
     \<Rightarrow> error + (int \<times> int \<times> int \<times> int)" where
  "findcontrolpoints u zana zraw gauss zpmin zpmax zamin zamax =
     and_then (py_assert (zamax < zamin)) (\<lambda>_.
     and_then (py_assert (zpmax < zpmin)) (\<lambda>_.
     and_then (py_assert (zamax \<le> zpmax)) (\<lambda>_.
     and_then (py_assert (zamin \<ge> zpmin)) (\<lambda>_.
     and_then (findcontrolpoints_scans u zana zraw zpmin zpmax zamin zamax) (\<lambda>(i, j, ii, jj).
     and_then (assert_that (le (item zana j) (item zraw jj))) (\<lambda>_.
     and_then (assert_that (ge (item zana i) (item zraw ii))) (\<lambda>_.
     and_then (assert_that (le (item gauss j) (item gauss jj))) (\<lambda>_.
     and_then (assert_that (ge (item gauss i) (item gauss ii))) (\<lambda>_.
     Inr (i, j, ii, jj))))))))))"


text \<open>The four closing assertions of \<^verbatim>\<open>findcontrolpoints\<close> at given indices:
  \<^verbatim>\<open>zana[j] <= zraw[jj]\<close>, \<^verbatim>\<open>zana[i] >= zraw[ii]\<close>, \<^verbatim>\<open>gauss[j] <= gauss[jj]\<close> and
  \<^verbatim>\<open>gauss[i] >= gauss[ii]\<close>.\<close>

definition control_points_ordered ::
  "real list \<Rightarrow> real list \<Rightarrow> real list \<Rightarrow> int \<Rightarrow> int \<Rightarrow> int \<Rightarrow> int \<Rightarrow> bool" where
  "control_points_ordered zana zraw gauss i j ii jj \<longleftrightarrow>
     le (item zana j) (item zraw jj) = Inr True \<and> ge (item zana i) (item zraw ii) = Inr True \<and>
     le (item gauss j) (item gauss jj) = Inr True \<and> ge (item gauss i) (item gauss ii) = Inr True"

section \<open>Hermite polynomials and the expansion\<close>

text \<open>A two-dimensional array: its second dimension \<^verbatim>\<open>shape[1]\<close> and its rows
  (\<^verbatim>\<open>shape[0]\<close> is the number of rows). Every row has \<open>ncols\<close> entries.\<close>

record matrix =
  ncols :: nat
  rows :: "real list list"

definition wf_matrix :: "matrix \<Rightarrow> bool" where
  "wf_matrix H = list_all (\<lambda>row. length row = ncols H) (rows H)"

subsection \<open>\<^verbatim>\<open>recurrentH\<close>\<close>

text \<open>The right-hand side of the recurrence,
  \<^verbatim>\<open>-1/np.sqrt(k+1)*y*H[k,:] - np.sqrt(k/float(k+1))*H[k-1,:]\<close>, element by element,
  and one iteration \<^verbatim>\<open>H[k+1,:] = \<dots>\<close> of the loop.\<close>

definition hermite_row :: "real list \<Rightarrow> real list list \<Rightarrow> nat \<Rightarrow> real list" where
  "hermite_row y H k =
     map (\<lambda>n. - 1 / sqrt (real (k + 1)) * y ! n * H ! k ! n
               - sqrt (real k / real (k + 1)) * H ! (k - 1) ! n) [0..<length y]"

definition hermite_step :: "real list \<Rightarrow> real list list \<Rightarrow> nat \<Rightarrow> real list list" where
  "hermite_step y H k = H[k + 1 := hermite_row y H k]"

text \<open>
  The argument \<^verbatim>\<open>int K\<close> is a C \<^verbatim>\<open>int\<close>: a Python integer outside its range is
  refused when the function is called. Then \<^verbatim>\<open>assert(K>=1)\<close>,
  \<^verbatim>\<open>H=np.ones((K+1,len(y)))\<close> with \<^verbatim>\<open>K+1\<close> computed on C \<^verbatim>\<open>int\<close>s (it wraps to a
  negative number at the largest \<^verbatim>\<open>int\<close>, and numpy refuses a negative dimension),
  \<^verbatim>\<open>H[1,:]=-y\<close> and the loop \<^verbatim>\<open>for k in range(1,K)\<close>.
\<close>

definition recurrentH :: "real list \<Rightarrow> int \<Rightarrow> error + matrix" where
  "recurrentH y K =
     (if \<not> c_int_range K then Inl OverflowError
      else if \<not> K \<ge> 1 then Inl AssertionError
      else if c_int_wrap (K + 1) < 0 then Inl ValueError
      else
        Inr \<lparr>ncols = length y,
             rows = foldl (hermite_step y)
                      ((replicate (nat (c_int_wrap (K + 1))) (replicate (length y) 1))[1 := map uminus y])
                      [1..<nat K]\<rparr>)"

subsection \<open>\<^verbatim>\<open>fit_PCI\<close>\<close>

text \<open>The argument \<^verbatim>\<open>meanz\<close> and the entries of the returned coefficient vector are
  doubles that can be not-a-number: \<^verbatim>\<open>np.nan\<close> is the default of \<^verbatim>\<open>meanz\<close>, and
  \<^verbatim>\<open>np.mean\<close> of an empty array is \<^verbatim>\<open>nan\<close>.\<close>

datatype double = Finite real | NaN

definition np_isnan :: "double \<Rightarrow> bool" where
  "np_isnan d = (case d of NaN \<Rightarrow> True | Finite _ \<Rightarrow> False)"

definition np_mean :: "real list \<Rightarrow> double" where
  "np_mean z = (if z = [] then NaN else Finite (sum_list z / real (length z)))"

definition add_double :: "double \<Rightarrow> real \<Rightarrow> double" where
  "add_double d x = (case d of NaN \<Rightarrow> NaN | Finite v \<Rightarrow> Finite (v + x))"

text \<open>\<^verbatim>\<open>stnormpdf\<close>: \<^verbatim>\<open>exp(-x**2/2) / (2*3.1415926)**.5\<close>\<close>

definition stnormpdf :: "real \<Rightarrow> real" where
  "stnormpdf x = exp (- (x ^ 2) / 2) / sqrt (2 * 3.1415926)"

text \<open>The body of the inner loop, on the pair of \<^verbatim>\<open>PCI\<close> and \<^verbatim>\<open>g\<close>:
  \<^verbatim>\<open>g[i] = stnormpdf(y[i])\<close>, then
  \<^verbatim>\<open>PCI[p] = PCI[p] + (z[i-1]-z[i])*1/sqrt(p)*H[p-1,i]*g[i]\<close>.\<close>

definition fit_step ::
  "real list \<Rightarrow> real list \<Rightarrow> matrix \<Rightarrow> nat \<Rightarrow> double list \<times> real list \<Rightarrow> nat \<Rightarrow> double list \<times> real list" where
  "fit_step z y H p s i =
     (let g = (snd s)[i := stnormpdf (y ! i)]
      in ((fst s)[p := add_double (fst s ! p)
                         ((z ! (i - 1) - z ! i) * 1 / sqrt (real p) * rows H ! (p - 1) ! i * g ! i)],
          g))"

text \<open>The shape assertion, the replacement of a not-a-number \<^verbatim>\<open>meanz\<close> by
  \<^verbatim>\<open>np.mean(z)\<close>, \<^verbatim>\<open>PCI[0]=np.mean(z)\<close> (an index error when \<^verbatim>\<open>H\<close> has no row), and the
  two nested loops \<^verbatim>\<open>for p in range(1,n)\<close>, \<^verbatim>\<open>for i in range(1,m)\<close>.\<close>

definition fit_PCI ::
  "real list \<Rightarrow> real list \<Rightarrow> matrix \<Rightarrow> double \<Rightarrow> error + (double list \<times> real list)" where
  "fit_PCI z y H meanz =
     (if length y = length z \<and> length z = ncols H then
        (let n = length (rows H); m = ncols H;
             meanz' = (if np_isnan meanz then np_mean z else meanz);
             PCI = replicate n (Finite 0);
             g = replicate m 0
         in if n = 0 then Inl IndexError
            else Inr (foldl (\<lambda>s p. foldl (fit_step z y H p) s [1..<m])
                        (PCI[0 := np_mean z], g) [1..<n]))
      else Inl AssertionError)"

subsection \<open>\<^verbatim>\<open>expand_anamor\<close>\<close>

text \<open>\<^verbatim>\<open>for p in range(1,len(PCI)): Z+=PCI[p]*H[p,:]*r**p\<close>; \<^verbatim>\<open>H[p,:]\<close> raises when
  \<^verbatim>\<open>H\<close> has no row \<^verbatim>\<open>p\<close>.\<close>

fun expand_loop :: "real list \<Rightarrow> matrix \<Rightarrow> real \<Rightarrow> nat list \<Rightarrow> real list \<Rightarrow> error + real list" where
  "expand_loop PCI H r [] Z = Inr Z"
| "expand_loop PCI H r (p # ps) Z =
     (if p < length (rows H)
      then expand_loop PCI H r ps (map2 (+) Z (map (\<lambda>h. PCI ! p * h * r ^ p) (rows H ! p)))
      else Inl IndexError)"

text \<open>\<^verbatim>\<open>Z=np.zeros(H.shape[1])\<close>, \<^verbatim>\<open>Z[:]=PCI[0]\<close>, then the loop.\<close>

definition expand_anamor :: "real list \<Rightarrow> matrix \<Rightarrow> real \<Rightarrow> error + real list" where
  "expand_anamor PCI H r =
     (case PCI of
        [] \<Rightarrow> Inl IndexError
      | c # _ \<Rightarrow> expand_loop PCI H r [1..<length PCI] (replicate (ncols H) c))"

section \<open>Transforms between the Gaussian and the raw scale\<close>

subsection \<open>\<^verbatim>\<open>numpy.interp\<close>\<close>

text \<open>
  \<^verbatim>\<open>np.interp(x, xp, fp)\<close> at a scalar \<open>x\<close>, with the default end values
  \<^verbatim>\<open>left = fp[0]\<close> and \<^verbatim>\<open>right = fp[-1]\<close>, as numpy (1.10 and later) computes it. The
  index \<open>j\<close> of the segment is found by \<^verbatim>\<open>binary_search_with_guess\<close>, called with the
  guess \<open>0\<close> for a scalar: it answers \<open>len\<close> above the table and \<open>-1\<close> below it, searches a
  table of at most four points from the left, and otherwise tries the three segments at
  the guess and then bisects. numpy does not check that \<open>xp\<close> is sorted.
\<close>

text \<open>\<^verbatim>\<open>for (i = 1; i < len && key >= arr[i]; ++i); return i - 1;\<close>\<close>

definition linear_search :: "real \<Rightarrow> real list \<Rightarrow> nat" where
  "linear_search key arr = length (takeWhile (\<lambda>v. key \<ge> v) (tl arr))"

text \<open>\<^verbatim>\<open>while (imin < imax) { imid = imin + ((imax - imin) >> 1);
  if (key >= arr[imid]) imin = imid + 1; else imax = imid; }\<close>, giving the last
  \<^verbatim>\<open>imin\<close>.\<close>

function bisect :: "real \<Rightarrow> real list \<Rightarrow> nat \<Rightarrow> nat \<Rightarrow> nat" where
  "bisect key arr imin imax =
     (if imin < imax then
        (let imid = imin + (imax - imin) div 2 in
         if key \<ge> arr ! imid then bisect key arr (imid + 1) imax
         else bisect key arr imin imid)
      else imin)"
  by pat_completeness auto
termination
  by (relation "measure (\<lambda>(key, arr, imin, imax). imax - imin)") auto

declare bisect.simps [simp del]

text \<open>\<^verbatim>\<open>if (guess > len - 3) guess = len - 3; if (guess < 1) guess = 1;\<close>\<close>

definition clamp_guess :: "int \<Rightarrow> int \<Rightarrow> int" where
  "clamp_guess guess len =
     (let g1 = (if guess > len - 3 then len - 3 else guess) in if g1 < 1 then 1 else g1)"

text \<open>The search around the guess \<open>g\<close>: the segments \<open>g - 1\<close>, \<open>g\<close> and \<open>g + 1\<close> are tried
  first; otherwise the bisection runs below \<open>g - 1\<close> or from \<open>g + 2\<close> on, on at most eight
  entries next to the guess when the key lies there
  (\<^verbatim>\<open>LIKELY_IN_CACHE_SIZE\<close> is 8).\<close>

definition guess_search :: "real \<Rightarrow> real list \<Rightarrow> int \<Rightarrow> int" where
  "guess_search key arr g =
     (if key < arr ! nat g then
        (if key < arr ! nat (g - 1) then
           int (bisect key arr
                  (if g > 8 \<and> key \<ge> arr ! nat (g - 8) then nat (g - 8) else 0)
                  (nat (g - 1))) - 1
         else g - 1)
      else if key < arr ! nat (g + 1) then g
      else if key < arr ! nat (g + 2) then g + 1
      else
        int (bisect key arr (nat (g + 2))
               (if g < int (length arr) - 8 - 1 \<and> key < arr ! nat (g + 8) then nat (g + 8)
                else length arr)) - 1)"

text \<open>\<^verbatim>\<open>binary_search_with_guess\<close>: the keys outside the table, the short tables, and the
  search around the guess.\<close>

definition binary_search_with_guess :: "real \<Rightarrow> real list \<Rightarrow> int \<Rightarrow> int" where
  "binary_search_with_guess key arr guess =
     (let len = int (length arr) in
      if key > arr ! nat (len - 1) then len
      else if key < arr ! 0 then - 1
      else if len \<le> 4 then int (linear_search key arr)
      else guess_search key arr (clamp_guess guess len))"

text \<open>The checks of the tables, the search, and the value: \<^verbatim>\<open>left\<close> for \<open>j = -1\<close>,
  \<^verbatim>\<open>right\<close> for \<open>j = len\<close>, \<^verbatim>\<open>fp[j]\<close> for \<open>j = len - 1\<close>, and otherwise
  \<^verbatim>\<open>slope*(x - xp[j]) + fp[j]\<close> with \<^verbatim>\<open>slope = (fp[j+1] - fp[j]) / (xp[j+1] - xp[j])\<close>.
  (numpy answers \<^verbatim>\<open>fp[j]\<close> directly when \<open>x = xp[j]\<close>, which is the same number, and
  treats a table of one point apart, with the same result.)\<close>

definition np_interp :: "real \<Rightarrow> real list \<Rightarrow> real list \<Rightarrow> error + real" where
  "np_interp x xp fp =
     (if xp = [] \<or> length fp \<noteq> length xp then Inl ValueError
      else
        (let j = binary_search_with_guess x xp 0 in
         if j = - 1 then Inr (fp ! 0)
         else if j = int (length xp) then Inr (last fp)
         else if j = int (length xp) - 1 then Inr (fp ! nat j)
         else Inr ((fp ! nat (j + 1) - fp ! nat j) / (xp ! nat (j + 1) - xp ! nat j)
                     * (x - xp ! nat j) + fp ! nat j)))"

text \<open>The value of \<^verbatim>\<open>np.interp(x, [x0, x1], [f0, f1])\<close> in closed form (lemma
  \<open>np_interp_two\<close> below): the end values outside the two points and at the second
  one, the line through the two points between them.\<close>

definition interp2 :: "real \<Rightarrow> real \<Rightarrow> real \<Rightarrow> real \<Rightarrow> real \<Rightarrow> real" where
  "interp2 x x0 x1 f0 f1 =
     (if x > x1 then f1 else if x < x0 then f0 else if x \<ge> x1 then f1
      else (f1 - f0) / (x1 - x0) * (x - x0) + f0)"

subsection \<open>\<^verbatim>\<open>Y2Z\<close>\<close>

text \<open>The loop \<^verbatim>\<open>for i in range(y.shape[0])\<close> that fixes the expansion outside the
  practical bounds.\<close>

fun Y2Z_loop ::
  "real list \<Rightarrow> real \<Rightarrow> real \<Rightarrow> real \<Rightarrow> real \<Rightarrow> real \<Rightarrow> real \<Rightarrow> real \<Rightarrow> real
     \<Rightarrow> nat list \<Rightarrow> real list \<Rightarrow> error + real list" where
  "Y2Z_loop y zamin yamin zpmin ypmin zpmax ypmax zamax yamax [] Z = Inr Z"
| "Y2Z_loop y zamin yamin zpmin ypmin zpmax ypmax zamax yamax (i # is) Z =
     (if y ! i \<le> ypmin then
        and_then (np_interp (y ! i) [yamin, ypmin] [zamin, zpmin]) (\<lambda>v.
          Y2Z_loop y zamin yamin zpmin ypmin zpmax ypmax zamax yamax is (Z[i := v]))
      else if y ! i \<ge> ypmax then
        and_then (np_interp (y ! i) [ypmax, yamax] [zpmax, zamax]) (\<lambda>v.
          Y2Z_loop y zamin yamin zpmin ypmin zpmax ypmax zamax yamax is (Z[i := v]))
      else Y2Z_loop y zamin yamin zpmin ypmin zpmax ypmax zamax yamax is Z)"

text \<open>\<^verbatim>\<open>K=PCI.shape[0]-1\<close> stored in the \<^verbatim>\<open>cdef int K\<close>, \<^verbatim>\<open>H=recurrentH(y,K)\<close>,
  \<^verbatim>\<open>Z=expand_anamor(PCI,H,r)\<close>, then the loop.\<close>

definition Y2Z ::
  "real list \<Rightarrow> real list \<Rightarrow> real \<Rightarrow> real \<Rightarrow> real \<Rightarrow> real \<Rightarrow> real \<Rightarrow> real \<Rightarrow> real \<Rightarrow> real \<Rightarrow> real
     \<Rightarrow> error + real list" where
  "Y2Z y PCI zamin yamin zpmin ypmin zpmax ypmax zamax yamax r =
     and_then (recurrentH y (c_int_wrap (int (length PCI) - 1))) (\<lambda>H.
     and_then (expand_anamor PCI H r) (\<lambda>Z.
     Y2Z_loop y zamin yamin zpmin ypmin zpmax ypmax zamax yamax [0..<length y] Z))"

subsection \<open>\<^verbatim>\<open>Z2Y_linear\<close>\<close>

text \<open>The five tests of the loop body, in the order of the source; each one that holds
  assigns \<^verbatim>\<open>Y[i]\<close> and ends the iteration with \<^verbatim>\<open>continue\<close>. \<open>Untouched\<close> is the
  iteration in which no test holds, so that \<^verbatim>\<open>Y[i]\<close> keeps the zero of \<^verbatim>\<open>np.zeros\<close>.\<close>

datatype region = AuthorizedMin | AuthorizedMax | PracticalMin | PracticalMax | Inside | Untouched

definition Z2Y_region :: "real \<Rightarrow> real \<Rightarrow> real \<Rightarrow> real \<Rightarrow> real \<Rightarrow> region" where
  "Z2Y_region x zamin zpmin zpmax zamax =
     (if x \<le> zamin then AuthorizedMin
      else if x \<ge> zamax then AuthorizedMax
      else if x \<le> zpmin then PracticalMin
      else if x \<ge> zpmax then PracticalMax
      else if x < zpmax \<and> x > zpmin then Inside
      else Untouched)"

text \<open>What one iteration assigns to \<^verbatim>\<open>Y[i]\<close>, if anything.\<close>

definition Z2Y_value ::
  "real \<Rightarrow> real list \<Rightarrow> real list \<Rightarrow> real \<Rightarrow> real \<Rightarrow> real \<Rightarrow> real \<Rightarrow> real \<Rightarrow> real \<Rightarrow> real \<Rightarrow> real
     \<Rightarrow> error + real option" where
  "Z2Y_value x zm ym zamin yamin zpmin ypmin zpmax ypmax zamax yamax =
     (case Z2Y_region x zamin zpmin zpmax zamax of
        AuthorizedMin \<Rightarrow> Inr (Some yamin)
      | AuthorizedMax \<Rightarrow> Inr (Some yamax)
      | PracticalMin \<Rightarrow> and_then (np_interp x [zamin, zpmin] [yamin, ypmin]) (\<lambda>v. Inr (Some v))
      | PracticalMax \<Rightarrow> and_then (np_interp x [zpmax, zamax] [ypmax, yamax]) (\<lambda>v. Inr (Some v))
      | Inside \<Rightarrow> and_then (np_interp x zm ym) (\<lambda>v. Inr (Some v))
      | Untouched \<Rightarrow> Inr None)"

text \<open>The loop \<^verbatim>\<open>for i in range(z.shape[0])\<close>.\<close>

fun Z2Y_loop ::
  "real list \<Rightarrow> real list \<Rightarrow> real list \<Rightarrow> real \<Rightarrow> real \<Rightarrow> real \<Rightarrow> real \<Rightarrow> real \<Rightarrow> real \<Rightarrow> real \<Rightarrow> real
     \<Rightarrow> nat list \<Rightarrow> real list \<Rightarrow> error + real list" where
  "Z2Y_loop z zm ym zamin yamin zpmin ypmin zpmax ypmax zamax yamax [] Y = Inr Y"
| "Z2Y_loop z zm ym zamin yamin zpmin ypmin zpmax ypmax zamax yamax (i # is) Y =
     and_then (Z2Y_value (z ! i) zm ym zamin yamin zpmin ypmin zpmax ypmax zamax yamax) (\<lambda>v.
       Z2Y_loop z zm ym zamin yamin zpmin ypmin zpmax ypmax zamax yamax is
         (case v of None \<Rightarrow> Y | Some w \<Rightarrow> Y[i := w]))"

text \<open>\<^verbatim>\<open>Y=np.zeros(z.shape[0])\<close>, then the loop.\<close>

definition Z2Y_linear ::
  "real list \<Rightarrow> real list \<Rightarrow> real list \<Rightarrow> real \<Rightarrow> real \<Rightarrow> real \<Rightarrow> real \<Rightarrow> real \<Rightarrow> real \<Rightarrow> real \<Rightarrow> real
     \<Rightarrow> error + real list" where
  "Z2Y_linear z zm ym zamin yamin zpmin ypmin zpmax ypmax zamax yamax =
     Z2Y_loop z zm ym zamin yamin zpmin ypmin zpmax ypmax zamax yamax
       [0..<length z] (replicate (length z) 0)"

section \<open>The first match of a scan, as the specification words it\<close>

text \<open>\<open>first_down P hi lo r\<close>: scanning the indices \<open>hi, hi - 1, \<dots>, lo\<close>, \<open>r\<close> is the
  first one at which \<open>P\<close> holds, or the last one visited, \<open>lo\<close>, when \<open>P\<close> holds at none.
  \<open>first_up P lo hi r\<close> is the same for the indices \<open>lo, lo + 1, \<dots>, hi\<close>.\<close>

definition first_down :: "(int \<Rightarrow> bool) \<Rightarrow> int \<Rightarrow> int \<Rightarrow> int \<Rightarrow> bool" where
  "first_down P hi lo r \<longleftrightarrow> lo \<le> r \<and> r \<le> hi \<and> (\<forall>m \<in> set [r + 1..hi]. \<not> P m) \<and> (P r \<or> r = lo)"

definition first_up :: "(int \<Rightarrow> bool) \<Rightarrow> int \<Rightarrow> int \<Rightarrow> int \<Rightarrow> bool" where
  "first_up P lo hi r \<longleftrightarrow> lo \<le> r \<and> r \<le> hi \<and> (\<forall>m \<in> set [lo..r - 1]. \<not> P m) \<and> (P r \<or> r = hi)"


section \<open>Properties of the scans\<close>

lemma item_in_range: "0 \<le> k \<Longrightarrow> k < int (length xs) \<Longrightarrow> item xs k = Inr (xs ! nat k)"
  by (simp add: item_def)

lemma scan_down_char:
  "(\<forall>m. stop < m \<and> m \<le> k \<longrightarrow> c m = Inr (P m)) \<Longrightarrow> stop < k \<Longrightarrow>
   \<exists>r. scan_down c k stop prev = Inr r \<and> stop < r \<and> r \<le> k \<and>
       (\<forall>m. r < m \<and> m \<le> k \<longrightarrow> \<not> P m) \<and> (P r \<or> r = stop + 1)"
proof (induction c k stop prev rule: scan_down.induct)
  case (1 c k stop prev)
  have ck: "c k = Inr (P k)" using "1.prems" by simp
  show ?case
  proof (cases "P k")
    case True
    then show ?thesis using "1.prems" ck by (subst scan_down.simps) auto
  next
    case False
    show ?thesis
    proof (cases "stop < k - 1")
      case True
      have "\<forall>m. stop < m \<and> m \<le> k - 1 \<longrightarrow> c m = Inr (P m)" using "1.prems" by simp
      from "1.IH"[OF "1.prems"(2) ck False this True]
      obtain r where r: "scan_down c (k - 1) stop k = Inr r" "stop < r" "r \<le> k - 1"
          "\<forall>m. r < m \<and> m \<le> k - 1 \<longrightarrow> \<not> P m" "P r \<or> r = stop + 1" by blast
      have "\<forall>m. r < m \<and> m \<le> k \<longrightarrow> \<not> P m"
      proof (intro allI impI)
        fix m assume "r < m \<and> m \<le> k"
        then have "m \<le> k - 1 \<or> m = k" by arith
        then show "\<not> P m" using r(4) False \<open>r < m \<and> m \<le> k\<close> by auto
      qed
      moreover have "scan_down c k stop prev = Inr r"
        using "1.prems"(2) ck False r(1) by (subst scan_down.simps) simp
      ultimately show ?thesis using r by auto
    next
      case F2: False
      then have eq: "k = stop + 1" using "1.prems"(2) by arith
      have "scan_down c (k - 1) stop k = Inr k"
        using eq by (subst scan_down.simps) simp
      then have "scan_down c k stop prev = Inr k"
        using "1.prems"(2) ck False by (subst scan_down.simps) simp
      then show ?thesis using eq "1.prems"(2) by auto
    qed
  qed
qed

lemma scan_up_char:
  "(\<forall>m. k \<le> m \<and> m < stop \<longrightarrow> c m = Inr (P m)) \<Longrightarrow> k < stop \<Longrightarrow>
   \<exists>r. scan_up c k stop prev = Inr r \<and> k \<le> r \<and> r < stop \<and>
       (\<forall>m. k \<le> m \<and> m < r \<longrightarrow> \<not> P m) \<and> (P r \<or> r = stop - 1)"
proof (induction c k stop prev rule: scan_up.induct)
  case (1 c k stop prev)
  have ck: "c k = Inr (P k)" using "1.prems" by simp
  show ?case
  proof (cases "P k")
    case True
    then show ?thesis using "1.prems" ck by (subst scan_up.simps) auto
  next
    case False
    show ?thesis
    proof (cases "k + 1 < stop")
      case True
      have "\<forall>m. k + 1 \<le> m \<and> m < stop \<longrightarrow> c m = Inr (P m)" using "1.prems" by simp
      from "1.IH"[OF "1.prems"(2) ck False this True]
      obtain r where r: "scan_up c (k + 1) stop k = Inr r" "k + 1 \<le> r" "r < stop"
          "\<forall>m. k + 1 \<le> m \<and> m < r \<longrightarrow> \<not> P m" "P r \<or> r = stop - 1" by blast
      have "\<forall>m. k \<le> m \<and> m < r \<longrightarrow> \<not> P m"
      proof (intro allI impI)
        fix m assume "k \<le> m \<and> m < r"
        then have "k + 1 \<le> m \<or> m = k" by arith
        then show "\<not> P m" using r(4) False \<open>k \<le> m \<and> m < r\<close> by auto
      qed
      moreover have "scan_up c k stop prev = Inr r"
        using "1.prems"(2) ck False r(1) by (subst scan_up.simps) simp
      ultimately show ?thesis using r by auto
    next
      case F2: False
      then have eq: "k = stop - 1" using "1.prems"(2) by arith
      have "scan_up c (k + 1) stop k = Inr k"
        using eq by (subst scan_up.simps) simp
      then have "scan_up c k stop prev = Inr k"
        using "1.prems"(2) ck False by (subst scan_up.simps) simp
      then show ?thesis using eq "1.prems"(2) by auto
    qed
  qed
qed

lemma and_then_Inr_iff: "and_then a f = Inr y \<longleftrightarrow> (\<exists>x. a = Inr x \<and> f x = Inr y)"
  by (cases a) auto

lemma cal_lower_stop_in_range:
  "length zana = N \<Longrightarrow> length zraw = N \<Longrightarrow> length gauss = N \<Longrightarrow> 0 \<le> ii \<Longrightarrow> ii < int N \<Longrightarrow>
   1 \<le> m \<Longrightarrow> m < int N \<Longrightarrow>
   cal_lower_stop zana zraw gauss ii m =
     Inr (zana ! nat (m - 1) < zraw ! nat ii \<or> zana ! nat (m - 1) > zana ! nat m
          \<or> gauss ! nat (m - 1) < gauss ! nat ii)"
  by (simp add: cal_lower_stop_def or_else_def lt_def gt_def item_in_range)

lemma cal_upper_stop_in_range:
  "length zana = N \<Longrightarrow> length zraw = N \<Longrightarrow> length gauss = N \<Longrightarrow> 0 \<le> jj \<Longrightarrow> jj < int N \<Longrightarrow>
   0 \<le> m \<Longrightarrow> m + 1 < int N \<Longrightarrow>
   cal_upper_stop zana zraw gauss jj m =
     Inr (zana ! nat (m + 1) > zraw ! nat jj \<or> zana ! nat (m + 1) < zana ! nat m
          \<or> gauss ! nat (m + 1) > gauss ! nat jj)"
  by (simp add: cal_upper_stop_def or_else_def lt_def gt_def item_in_range)

lemma calautorized_scans:
  assumes len: "length zana = N" "length zraw = N" "length gauss = N" and N: "4 \<le> N"
    and lo: "(case zpmin of None \<Rightarrow> py_min zraw | Some v \<Rightarrow> Inr v) = Inr lo"
    and hi: "(case zpmax of None \<Rightarrow> py_max zraw | Some v \<Rightarrow> Inr v) = Inr hi"
  shows "\<exists>i j ii jj. calautorized u zana zraw gauss zpmin zpmax = Inr (i, j, ii, jj)
      \<and> (0 < jj \<and> jj \<le> int N - 1 \<and> (\<forall>m. jj < m \<and> m \<le> int N - 1 \<longrightarrow> \<not> zraw ! nat m < hi)
          \<and> (zraw ! nat jj < hi \<or> jj = 0 + 1))
      \<and> (0 \<le> ii \<and> ii < int N - 1 \<and> (\<forall>m. 0 \<le> m \<and> m < ii \<longrightarrow> \<not> zraw ! nat m > lo)
          \<and> (zraw ! nat ii > lo \<or> ii = int N - 1 - 1))
      \<and> (1 < i \<and> i \<le> int N div 2
          \<and> (\<forall>m. i < m \<and> m \<le> int N div 2 \<longrightarrow>
                \<not> (zana ! nat (m - 1) < zraw ! nat ii \<or> zana ! nat (m - 1) > zana ! nat m
                    \<or> gauss ! nat (m - 1) < gauss ! nat ii))
          \<and> ((zana ! nat (i - 1) < zraw ! nat ii \<or> zana ! nat (i - 1) > zana ! nat i
                    \<or> gauss ! nat (i - 1) < gauss ! nat ii) \<or> i = 1 + 1))
      \<and> (int N div 2 \<le> j \<and> j < int N - 1
          \<and> (\<forall>m. int N div 2 \<le> m \<and> m < j \<longrightarrow>
                \<not> (zana ! nat (m + 1) > zraw ! nat jj \<or> zana ! nat (m + 1) < zana ! nat m
                    \<or> gauss ! nat (m + 1) > gauss ! nat jj))
          \<and> ((zana ! nat (j + 1) > zraw ! nat jj \<or> zana ! nat (j + 1) < zana ! nat j
                    \<or> gauss ! nat (j + 1) > gauss ! nat jj) \<or> j = int N - 1 - 1))"
proof -
  let ?Pjj = "\<lambda>m. zraw ! nat m < hi"
  let ?Pii = "\<lambda>m. zraw ! nat m > lo"
  have "\<forall>m. 0 < m \<and> m \<le> int N - 1 \<longrightarrow> lt (item zraw m) (Inr hi) = Inr (?Pjj m)"
    using len by (simp add: lt_def item_in_range)
  moreover have "(0::int) < int N - 1" using N by simp
  ultimately obtain jj where jj: "scan_down (\<lambda>jj. lt (item zraw jj) (Inr hi)) (int N - 1) 0 (loc_jj u) = Inr jj"
      "0 < jj" "jj \<le> int N - 1" "\<forall>m. jj < m \<and> m \<le> int N - 1 \<longrightarrow> \<not> ?Pjj m" "?Pjj jj \<or> jj = 0 + 1"
    using scan_down_char[of 0 "int N - 1" "\<lambda>jj. lt (item zraw jj) (Inr hi)" ?Pjj "loc_jj u"] by blast
  have "\<forall>m. 0 \<le> m \<and> m < int N - 1 \<longrightarrow> gt (item zraw m) (Inr lo) = Inr (?Pii m)"
    using len by (simp add: gt_def item_in_range)
  moreover have "(0::int) < int N - 1" using N by simp
  ultimately obtain ii where ii: "scan_up (\<lambda>ii. gt (item zraw ii) (Inr lo)) 0 (int N - 1) (loc_ii u) = Inr ii"
      "0 \<le> ii" "ii < int N - 1" "\<forall>m. 0 \<le> m \<and> m < ii \<longrightarrow> \<not> ?Pii m" "?Pii ii \<or> ii = int N - 1 - 1"
    using scan_up_char[of 0 "int N - 1" "\<lambda>ii. gt (item zraw ii) (Inr lo)" ?Pii "loc_ii u"] by blast
  let ?Pi = "\<lambda>m. zana ! nat (m - 1) < zraw ! nat ii \<or> zana ! nat (m - 1) > zana ! nat m
                    \<or> gauss ! nat (m - 1) < gauss ! nat ii"
  let ?Pj = "\<lambda>m. zana ! nat (m + 1) > zraw ! nat jj \<or> zana ! nat (m + 1) < zana ! nat m
                    \<or> gauss ! nat (m + 1) > gauss ! nat jj"
  have half: "int N div 2 < int N" "1 < int N div 2" "int N div 2 < int N - 1" using N by auto
  have "\<forall>m. 1 < m \<and> m \<le> int N div 2 \<longrightarrow> cal_lower_stop zana zraw gauss ii m = Inr (?Pi m)"
    using len ii(2,3) half by (simp add: cal_lower_stop_in_range)
  then obtain i where i: "scan_down (cal_lower_stop zana zraw gauss ii) (int N div 2) 1 (loc_i u) = Inr i"
      "1 < i" "i \<le> int N div 2" "\<forall>m. i < m \<and> m \<le> int N div 2 \<longrightarrow> \<not> ?Pi m" "?Pi i \<or> i = 1 + 1"
    using scan_down_char[of 1 "int N div 2" "cal_lower_stop zana zraw gauss ii" ?Pi "loc_i u"] half(2) by blast
  have "\<forall>m. int N div 2 \<le> m \<and> m < int N - 1 \<longrightarrow> cal_upper_stop zana zraw gauss jj m = Inr (?Pj m)"
    using len jj(2,3) half by (simp add: cal_upper_stop_in_range)
  then obtain j where j: "scan_up (cal_upper_stop zana zraw gauss jj) (int N div 2) (int N - 1) (loc_j u) = Inr j"
      "int N div 2 \<le> j" "j < int N - 1" "\<forall>m. int N div 2 \<le> m \<and> m < j \<longrightarrow> \<not> ?Pj m" "?Pj j \<or> j = int N - 1 - 1"
    using scan_up_char[of "int N div 2" "int N - 1" "cal_upper_stop zana zraw gauss jj" ?Pj "loc_j u"] half(3) by blast
  have "calautorized u zana zraw gauss zpmin zpmax = Inr (i, j, ii, jj)"
    unfolding calautorized_def using len lo hi jj(1) ii(1) i(1) j(1)
    by (simp add:)
  then show ?thesis using jj(2-) ii(2-) i(2-) j(2-) by blast
qed

lemma foldl_min: "foldl (\<lambda>m v. if v < m then v else m) (x :: real) r = Min (set (x # r))"
proof -
  have "(\<lambda>v m. if v < m then v else m) = (min :: real \<Rightarrow> real \<Rightarrow> real)"
    by (intro ext) (simp add: min_def)
  then show ?thesis unfolding Min.set_eq_fold foldl_conv_fold by simp
qed

lemma foldl_max: "foldl (\<lambda>m v. if v > m then v else m) (x :: real) r = Max (set (x # r))"
proof -
  have "(\<lambda>v m. if v > m then v else m) = (max :: real \<Rightarrow> real \<Rightarrow> real)"
    by (intro ext) (simp add: max_def)
  then show ?thesis unfolding Max.set_eq_fold foldl_conv_fold by simp
qed

lemma py_min_Min: "xs \<noteq> [] \<Longrightarrow> py_min xs = Inr (Min (set xs))"
  by (cases xs) (simp_all add: py_min_def foldl_min del: set_simps)

lemma py_max_Max: "xs \<noteq> [] \<Longrightarrow> py_max xs = Inr (Max (set xs))"
  by (cases xs) (simp_all add: py_max_def foldl_max del: set_simps)

lemma bound_defined:
  "zraw \<noteq> [] \<Longrightarrow> (case b of None \<Rightarrow> py_min zraw | Some v \<Rightarrow> Inr v)
      = Inr (case b of None \<Rightarrow> Min (set zraw) | Some v \<Rightarrow> v)"
  "zraw \<noteq> [] \<Longrightarrow> (case b of None \<Rightarrow> py_max zraw | Some v \<Rightarrow> Inr v)
      = Inr (case b of None \<Rightarrow> Max (set zraw) | Some v \<Rightarrow> v)"
  by (cases b; simp add: py_min_Min py_max_Max)+

lemma scan_down_empty: "k \<le> stop \<Longrightarrow> scan_down c k stop prev = Inr prev"
  by (subst scan_down.simps) simp

lemma blk_lower_stop_in_range:
  "length zana = N \<Longrightarrow> length gauss = N \<Longrightarrow> 1 \<le> m \<Longrightarrow> m < int N \<Longrightarrow>
   blk_lower_stop zana gauss zpmin 0 m =
     Inr (zana ! nat (m - 1) < zpmin \<or> zana ! nat (m - 1) > zana ! nat m
          \<or> gauss ! nat (m - 1) < gauss ! 0)"
  by (simp add: blk_lower_stop_def or_else_def lt_def gt_def item_in_range)

lemma blk_upper_stop_in_range:
  "length zana = N \<Longrightarrow> length gauss = N \<Longrightarrow> 0 \<le> m \<Longrightarrow> m + 1 < int N \<Longrightarrow>
   blk_upper_stop zana gauss zpmax (int N - 1) m =
     Inr (zana ! nat (m + 1) > zpmax \<or> zana ! nat (m + 1) < zana ! nat m
          \<or> gauss ! nat (m + 1) > gauss ! nat (int N - 1))"
  by (simp add: blk_upper_stop_def or_else_def lt_def gt_def item_in_range)

lemma calautorized_blk_scans:
  assumes len: "length zana = N" "length gauss = N" and N: "4 \<le> N"
  shows "\<exists>i j. calautorized_blk u zana gauss zpmin zpmax = Inr (i, j, 0, int N - 1)
      \<and> 1 < i \<and> i \<le> int N div 2 \<and> int N div 2 \<le> j \<and> j < int N - 1"
proof -
  let ?Pi = "\<lambda>m. zana ! nat (m - 1) < zpmin \<or> zana ! nat (m - 1) > zana ! nat m
          \<or> gauss ! nat (m - 1) < gauss ! 0"
  let ?Pj = "\<lambda>m. zana ! nat (m + 1) > zpmax \<or> zana ! nat (m + 1) < zana ! nat m
          \<or> gauss ! nat (m + 1) > gauss ! nat (int N - 1)"
  have half: "int N div 2 < int N" "1 < int N div 2" "int N div 2 < int N - 1" using N by auto
  have "\<forall>m. 1 < m \<and> m \<le> int N div 2 \<longrightarrow> blk_lower_stop zana gauss zpmin 0 m = Inr (?Pi m)"
    using len half by (simp add: blk_lower_stop_in_range)
  then obtain i where i: "scan_down (blk_lower_stop zana gauss zpmin 0) (int N div 2) 1 (loc_i u) = Inr i"
      "1 < i" "i \<le> int N div 2"
    using scan_down_char[of 1 "int N div 2" "blk_lower_stop zana gauss zpmin 0" ?Pi "loc_i u"] half(2) by blast
  have "\<forall>m. int N div 2 \<le> m \<and> m < int N - 1 \<longrightarrow> blk_upper_stop zana gauss zpmax (int N - 1) m = Inr (?Pj m)"
    using len half by (simp add: blk_upper_stop_in_range)
  then obtain j where j: "scan_up (blk_upper_stop zana gauss zpmax (int N - 1)) (int N div 2) (int N - 1) (loc_j u) = Inr j"
      "int N div 2 \<le> j" "j < int N - 1"
    using scan_up_char[of "int N div 2" "int N - 1" "blk_upper_stop zana gauss zpmax (int N - 1)" ?Pj "loc_j u"] half(3) by blast
  have "calautorized_blk u zana gauss zpmin zpmax = Inr (i, j, 0, int N - 1)"
    unfolding calautorized_blk_def using len i(1) j(1)
    by (simp add: Let_def)
  then show ?thesis using i(2-) j(2-) by blast
qed


section \<open>The control-point locators\<close>

text \<open>
  Claim C1, as amended. On arrays of common length \<open>N \<ge> 4\<close>, \<^verbatim>\<open>calautorized\<close> returns a
  quadruple \<open>(i, j, ii, jj)\<close> made of four first matches: \<open>jj\<close> is the first index from
  \<open>N - 1\<close> down to \<open>1\<close> with \<open>zraw[jj] < zpmax\<close>; \<open>ii\<close> the first index from \<open>0\<close> up to
  \<open>N - 2\<close> with \<open>zraw[ii] > zpmin\<close>; \<open>i\<close> the first index from \<open>N div 2\<close> down to \<open>2\<close> with
  \<open>zana[i-1] < zraw[ii]\<close> or \<open>zana[i-1] > zana[i]\<close> or \<open>gauss[i-1] < gauss[ii]\<close>; \<open>j\<close> the
  first index from \<open>N div 2\<close> up to \<open>N - 2\<close> with \<open>zana[j+1] > zraw[jj]\<close> or
  \<open>zana[j+1] < zana[j]\<close> or \<open>gauss[j+1] > gauss[jj]\<close>; a scan whose condition holds nowhere
  gives its last visited index. An omitted \<open>zpmin\<close> is the least entry of \<open>zraw\<close>, an omitted
  \<open>zpmax\<close> the greatest one. The result does not depend on what the four index
  variables held before.
\<close>

theorem calautorized_first_match:
  assumes len: "length zana = N" "length zraw = N" "length gauss = N" and N: "4 \<le> N"
  shows "\<exists>i j ii jj. calautorized u zana zraw gauss zpmin zpmax = Inr (i, j, ii, jj)
     \<and> first_down (\<lambda>k. zraw ! nat k < (case zpmax of None \<Rightarrow> Max (set zraw) | Some v \<Rightarrow> v))
          (int N - 1) 1 jj
     \<and> first_up (\<lambda>k. zraw ! nat k > (case zpmin of None \<Rightarrow> Min (set zraw) | Some v \<Rightarrow> v))
          0 (int N - 2) ii
     \<and> first_down (\<lambda>k. zana ! nat (k - 1) < zraw ! nat ii \<or> zana ! nat (k - 1) > zana ! nat k
                       \<or> gauss ! nat (k - 1) < gauss ! nat ii) (int N div 2) 2 i
     \<and> first_up (\<lambda>k. zana ! nat (k + 1) > zraw ! nat jj \<or> zana ! nat (k + 1) < zana ! nat k
                     \<or> gauss ! nat (k + 1) > gauss ! nat jj) (int N div 2) (int N - 2) j"
proof -
  let ?lo = "case zpmin of None \<Rightarrow> Min (set zraw) | Some v \<Rightarrow> v"
  let ?hi = "case zpmax of None \<Rightarrow> Max (set zraw) | Some v \<Rightarrow> v"
  have ne: "zraw \<noteq> []" using len N by auto
  have b: "(case zpmin of None \<Rightarrow> py_min zraw | Some v \<Rightarrow> Inr v) = Inr ?lo"
      "(case zpmax of None \<Rightarrow> py_max zraw | Some v \<Rightarrow> Inr v) = Inr ?hi"
    using bound_defined[OF ne] by blast+
  from calautorized_scans[OF len N b, of u]
  obtain i j ii jj where r: "calautorized u zana zraw gauss zpmin zpmax = Inr (i, j, ii, jj)"
    and cjj: "0 < jj" "jj \<le> int N - 1" "\<forall>m. jj < m \<and> m \<le> int N - 1 \<longrightarrow> \<not> zraw ! nat m < ?hi"
          "zraw ! nat jj < ?hi \<or> jj = 0 + 1"
    and cii: "0 \<le> ii" "ii < int N - 1" "\<forall>m. 0 \<le> m \<and> m < ii \<longrightarrow> \<not> zraw ! nat m > ?lo"
          "zraw ! nat ii > ?lo \<or> ii = int N - 1 - 1"
    and ci: "1 < i" "i \<le> int N div 2"
          "\<forall>m. i < m \<and> m \<le> int N div 2 \<longrightarrow>
                \<not> (zana ! nat (m - 1) < zraw ! nat ii \<or> zana ! nat (m - 1) > zana ! nat m
                    \<or> gauss ! nat (m - 1) < gauss ! nat ii)"
          "(zana ! nat (i - 1) < zraw ! nat ii \<or> zana ! nat (i - 1) > zana ! nat i
                    \<or> gauss ! nat (i - 1) < gauss ! nat ii) \<or> i = 1 + 1"
    and cj: "int N div 2 \<le> j" "j < int N - 1"
          "\<forall>m. int N div 2 \<le> m \<and> m < j \<longrightarrow>
                \<not> (zana ! nat (m + 1) > zraw ! nat jj \<or> zana ! nat (m + 1) < zana ! nat m
                    \<or> gauss ! nat (m + 1) > gauss ! nat jj)"
          "(zana ! nat (j + 1) > zraw ! nat jj \<or> zana ! nat (j + 1) < zana ! nat j
                    \<or> gauss ! nat (j + 1) > gauss ! nat jj) \<or> j = int N - 1 - 1"
    by blast
  have fjj: "first_down (\<lambda>k. zraw ! nat k < ?hi) (int N - 1) 1 jj"
    unfolding first_down_def using cjj by auto
  have fii: "first_up (\<lambda>k. zraw ! nat k > ?lo) 0 (int N - 2) ii"
    unfolding first_up_def using cii by auto
  have fi: "first_down (\<lambda>k. zana ! nat (k - 1) < zraw ! nat ii \<or> zana ! nat (k - 1) > zana ! nat k
                               \<or> gauss ! nat (k - 1) < gauss ! nat ii) (int N div 2) 2 i"
    unfolding first_down_def using ci by auto
  have fj: "first_up (\<lambda>k. zana ! nat (k + 1) > zraw ! nat jj \<or> zana ! nat (k + 1) < zana ! nat k
                             \<or> gauss ! nat (k + 1) > gauss ! nat jj) (int N div 2) (int N - 2) j"
    unfolding first_up_def using cj by auto
  show ?thesis using r fjj fii fi fj by blast
qed

text \<open>
  Claim C1 as stated is for every common length. With three entries the scan for \<open>i\<close> runs
  over the empty range from \<open>1\<close> down to \<open>2\<close>: no iteration assigns \<open>i\<close>, and the function
  returns whatever the variable held, here \<open>32555\<close> (or \<open>7\<close>, on the same arrays), which is
  not an index of that scan (no value is).
\<close>

theorem calautorized_first_match_counterexample:
  "length [0, 1, 2 :: real] = 3
   \<and> calautorized \<lparr>loc_i = 32555, loc_j = 0, loc_ii = 0, loc_jj = 0\<rparr>
        [0, 1, 2] [0, 1, 2] [- 1, 0, 1] None None = Inr (32555, 1, 1, 1)
   \<and> calautorized \<lparr>loc_i = 7, loc_j = 0, loc_ii = 0, loc_jj = 0\<rparr>
        [0, 1, 2] [0, 1, 2] [- 1, 0, 1] None None = Inr (7, 1, 1, 1)
   \<and> \<not> first_down (\<lambda>k. [0, 1, 2 :: real] ! nat (k - 1) < [0, 1, 2] ! nat 1
                       \<or> [0, 1, 2 :: real] ! nat (k - 1) > [0, 1, 2] ! nat k
                       \<or> [- 1, 0, 1 :: real] ! nat (k - 1) < [- 1, 0, 1] ! nat 1) (3 div 2) 2 32555"
  by (simp add: calautorized_def py_min_def py_max_def lt_def gt_def item_def
      cal_lower_stop_def cal_upper_stop_def or_else_def first_down_def)

theorem calautorized_first_match_witness:
  "length [0, 1 / 5, 1 / 2, 3, 4, 5, 8, 9 :: real] = 8 \<and> length [0, 1, 2, 3, 4, 5, 6, 7 :: real] = 8
   \<and> length [- 3, - 2, - 1, 0, 1, 2, 3, 4 :: real] = 8 \<and> (4 :: nat) \<le> 8
   \<and> calautorized \<lparr>loc_i = 77, loc_j = - 5, loc_ii = 1000, loc_jj = - 1\<rparr>
        [0, 1 / 5, 1 / 2, 3, 4, 5, 8, 9] [0, 1, 2, 3, 4, 5, 6, 7] [- 3, - 2, - 1, 0, 1, 2, 3, 4]
        None None = Inr (3, 5, 1, 6)
   \<and> first_down (\<lambda>k. [0, 1, 2, 3, 4, 5, 6, 7 :: real] ! nat k
                        < Max (set [0, 1, 2, 3, 4, 5, 6, 7])) 7 1 6
   \<and> first_up (\<lambda>k. [0, 1, 2, 3, 4, 5, 6, 7 :: real] ! nat k
                      > Min (set [0, 1, 2, 3, 4, 5, 6, 7])) 0 6 1
   \<and> first_down (\<lambda>k. [0, 1 / 5, 1 / 2, 3, 4, 5, 8, 9 :: real] ! nat (k - 1)
                          < [0, 1, 2, 3, 4, 5, 6, 7] ! nat 1
                    \<or> [0, 1 / 5, 1 / 2, 3, 4, 5, 8, 9 :: real] ! nat (k - 1)
                          > [0, 1 / 5, 1 / 2, 3, 4, 5, 8, 9] ! nat k
                    \<or> [- 3, - 2, - 1, 0, 1, 2, 3, 4 :: real] ! nat (k - 1)
                          < [- 3, - 2, - 1, 0, 1, 2, 3, 4] ! nat 1) 4 2 3
   \<and> first_up (\<lambda>k. [0, 1 / 5, 1 / 2, 3, 4, 5, 8, 9 :: real] ! nat (k + 1)
                          > [0, 1, 2, 3, 4, 5, 6, 7] ! nat 6
                  \<or> [0, 1 / 5, 1 / 2, 3, 4, 5, 8, 9 :: real] ! nat (k + 1)
                          < [0, 1 / 5, 1 / 2, 3, 4, 5, 8, 9] ! nat k
                  \<or> [- 3, - 2, - 1, 0, 1, 2, 3, 4 :: real] ! nat (k + 1)
                          > [- 3, - 2, - 1, 0, 1, 2, 3, 4] ! nat 6) 4 6 5"
proof -
  let ?u = "\<lparr>loc_i = 77, loc_j = - 5, loc_ii = 1000, loc_jj = - 1\<rparr>"
  have h: "length [0, 1 / 5, 1 / 2, 3, 4, 5, 8, 9 :: real] = 8"
      "length [0, 1, 2, 3, 4, 5, 6, 7 :: real] = 8"
      "length [- 3, - 2, - 1, 0, 1, 2, 3, 4 :: real] = 8" "(4 :: nat) \<le> 8"
    by simp_all
  have ev: "calautorized ?u
        [0, 1 / 5, 1 / 2, 3, 4, 5, 8, 9] [0, 1, 2, 3, 4, 5, 6, 7] [- 3, - 2, - 1, 0, 1, 2, 3, 4]
        None None = Inr (3, 5, 1, 6)"
    by (simp add: calautorized_def py_min_def py_max_def lt_def gt_def
      item_def cal_lower_stop_def cal_upper_stop_def or_else_def)
  show ?thesis
    using calautorized_first_match[OF h, of ?u None None] ev h
    by simp
qed

text \<open>
  Claim C10. On arrays of common length \<open>N \<ge> 4\<close>, whatever they contain, \<^verbatim>\<open>calautorized\<close>
  and \<^verbatim>\<open>calautorized_blk\<close> return indices with \<open>2 \<le> i \<le> N div 2 \<le> j \<le> N - 2\<close>; for
  \<^verbatim>\<open>calautorized\<close> moreover \<open>0 \<le> ii \<le> N - 2\<close> and \<open>1 \<le> jj \<le> N - 1\<close>, and for
  \<^verbatim>\<open>calautorized_blk\<close> \<open>ii = 0\<close> and \<open>jj = N - 1\<close>.
\<close>

theorem control_indices_in_range:
  assumes "length zana = N" "length zraw = N" "length gauss = N" "4 \<le> N"
  shows "(\<exists>i j ii jj. calautorized u zana zraw gauss zpmin zpmax = Inr (i, j, ii, jj)
            \<and> 2 \<le> i \<and> i \<le> int N div 2 \<and> int N div 2 \<le> j \<and> j \<le> int N - 2
            \<and> 0 \<le> ii \<and> ii \<le> int N - 2 \<and> 1 \<le> jj \<and> jj \<le> int N - 1)
       \<and> (\<exists>i j ii jj. calautorized_blk u' zana gauss bmin bmax = Inr (i, j, ii, jj)
            \<and> 2 \<le> i \<and> i \<le> int N div 2 \<and> int N div 2 \<le> j \<and> j \<le> int N - 2
            \<and> ii = 0 \<and> jj = int N - 1)"
proof
  have ne: "zraw \<noteq> []" using assms by auto
  have b: "(case zpmin of None \<Rightarrow> py_min zraw | Some v \<Rightarrow> Inr v)
        = Inr (case zpmin of None \<Rightarrow> Min (set zraw) | Some v \<Rightarrow> v)"
      "(case zpmax of None \<Rightarrow> py_max zraw | Some v \<Rightarrow> Inr v)
        = Inr (case zpmax of None \<Rightarrow> Max (set zraw) | Some v \<Rightarrow> v)"
    using bound_defined[OF ne] by blast+
  obtain i j ii jj where r: "calautorized u zana zraw gauss zpmin zpmax = Inr (i, j, ii, jj)"
      "0 < jj" "jj \<le> int N - 1" "0 \<le> ii" "ii < int N - 1" "1 < i" "i \<le> int N div 2"
      "int N div 2 \<le> j" "j < int N - 1"
    using calautorized_scans[OF assms b, of u] by blast
  show "\<exists>i j ii jj. calautorized u zana zraw gauss zpmin zpmax = Inr (i, j, ii, jj)
            \<and> 2 \<le> i \<and> i \<le> int N div 2 \<and> int N div 2 \<le> j \<and> j \<le> int N - 2
            \<and> 0 \<le> ii \<and> ii \<le> int N - 2 \<and> 1 \<le> jj \<and> jj \<le> int N - 1"
    using r by (intro exI[of _ i] exI[of _ j] exI[of _ ii] exI[of _ jj]) simp
next
  obtain i j where r: "calautorized_blk u' zana gauss bmin bmax = Inr (i, j, 0, int N - 1)"
      "1 < i" "i \<le> int N div 2" "int N div 2 \<le> j" "j < int N - 1"
    using calautorized_blk_scans[OF assms(1,3,4), of u'] by blast
  show "\<exists>i j ii jj. calautorized_blk u' zana gauss bmin bmax = Inr (i, j, ii, jj)
            \<and> 2 \<le> i \<and> i \<le> int N div 2 \<and> int N div 2 \<le> j \<and> j \<le> int N - 2
            \<and> ii = 0 \<and> jj = int N - 1"
    using r by (intro exI[of _ i] exI[of _ j] exI[of _ 0] exI[of _ "int N - 1"]) simp
qed

theorem control_indices_in_range_witness:
  "length [0, 1, 2, 3, 2, 5, 6 :: real] = 7 \<and> length [0, 0, 1, 3, 4, 6, 6 :: real] = 7
   \<and> length [- 3, - 2, - 1, 0, 1, 2, 3 :: real] = 7 \<and> (4 :: nat) \<le> 7
   \<and> (\<exists>i j ii jj. calautorized \<lparr>loc_i = - 9, loc_j = 40, loc_ii = 7, loc_jj = 0\<rparr>
            [0, 1, 2, 3, 2, 5, 6] [0, 0, 1, 3, 4, 6, 6] [- 3, - 2, - 1, 0, 1, 2, 3] None None
              = Inr (i, j, ii, jj)
            \<and> 2 \<le> i \<and> i \<le> 3 \<and> 3 \<le> j \<and> j \<le> 5 \<and> 0 \<le> ii \<and> ii \<le> 5 \<and> 1 \<le> jj \<and> jj \<le> 6)
   \<and> (\<exists>i j ii jj. calautorized_blk \<lparr>loc_i = - 9, loc_j = 40, loc_ii = 7, loc_jj = 0\<rparr>
            [0, 1, 2, 3, 2, 5, 6] [- 3, - 2, - 1, 0, 1, 2, 3] 0 6 = Inr (i, j, ii, jj)
            \<and> 2 \<le> i \<and> i \<le> 3 \<and> 3 \<le> j \<and> j \<le> 5 \<and> ii = 0 \<and> jj = 6)"
proof -
  have h: "length [0, 1, 2, 3, 2, 5, 6 :: real] = 7" "length [0, 0, 1, 3, 4, 6, 6 :: real] = 7"
      "length [- 3, - 2, - 1, 0, 1, 2, 3 :: real] = 7" "(4 :: nat) \<le> 7"
    by simp_all
  show ?thesis
    using control_indices_in_range[OF h,
        of "\<lparr>loc_i = - 9, loc_j = 40, loc_ii = 7, loc_jj = 0\<rparr>" None None
           "\<lparr>loc_i = - 9, loc_j = 40, loc_ii = 7, loc_jj = 0\<rparr>" 0 6] h
    by simp
qed

lemma assert_that_Inr_iff: "assert_that b = Inr u \<longleftrightarrow> b = Inr True"
  by (cases b) (auto simp add: assert_that_def py_assert_def)

lemma findcontrolpoints_returns:
  assumes "findcontrolpoints u zana zraw gauss zpmin zpmax zamin zamax = Inr (i, j, ii, jj)"
  shows "control_points_ordered zana zraw gauss i j ii jj"
  using assms unfolding findcontrolpoints_def control_points_ordered_def
  by (auto simp add: and_then_Inr_iff assert_that_Inr_iff)

lemma findcontrolpoints_rejects:
  assumes "\<not> (zamax < zamin \<and> zamin \<ge> zpmin \<and> zamax \<le> zpmax)"
  shows "findcontrolpoints u zana zraw gauss zpmin zpmax zamin zamax = Inl AssertionError"
  using assms unfolding findcontrolpoints_def by (auto simp add: py_assert_def)

lemma cmp_items:
  "0 \<le> a \<Longrightarrow> a < int (length xs) \<Longrightarrow> 0 \<le> b \<Longrightarrow> b < int (length ys) \<Longrightarrow>
     le (item xs a) (item ys b) = Inr (xs ! nat a \<le> ys ! nat b)"
  "0 \<le> a \<Longrightarrow> a < int (length xs) \<Longrightarrow> 0 \<le> b \<Longrightarrow> b < int (length ys) \<Longrightarrow>
     ge (item xs a) (item ys b) = Inr (xs ! nat a \<ge> ys ! nat b)"
  by (simp_all add: le_def ge_def item_in_range)

lemma findcontrolpoints_scans_defined:
  assumes len: "length zana = N" "length zraw = N" and N: "4 \<le> N"
  shows "\<exists>i j ii jj. findcontrolpoints_scans u zana zraw zpmin zpmax zamin zamax
            = Inr (i, j, ii, jj)
      \<and> 1 < i \<and> i \<le> int N div 2 \<and> int N div 2 \<le> j \<and> j < int N - 1
      \<and> 0 \<le> ii \<and> ii < int N - 1 \<and> 0 < jj \<and> jj \<le> int N - 1"
proof -
  have half: "int N div 2 < int N" "1 < int N div 2" "int N div 2 < int N - 1" "(0::int) < int N - 1"
    using N by auto
  have "\<forall>m. 0 < m \<and> m \<le> int N - 1 \<longrightarrow> le (item zraw m) (Inr zpmax) = Inr (zraw ! nat m \<le> zpmax)"
    using len by (simp add: le_def item_in_range)
  then obtain jj where jj: "scan_down (\<lambda>jj. le (item zraw jj) (Inr zpmax)) (int N - 1) 0 (loc_jj u) = Inr jj"
      "0 < jj" "jj \<le> int N - 1"
    using scan_down_char[of 0 "int N - 1" "\<lambda>jj. le (item zraw jj) (Inr zpmax)" "\<lambda>m. zraw ! nat m \<le> zpmax" "loc_jj u"] half(4)
    by blast
  have "\<forall>m. 0 \<le> m \<and> m < int N - 1 \<longrightarrow> ge (item zraw m) (Inr zpmin) = Inr (zraw ! nat m \<ge> zpmin)"
    using len by (simp add: ge_def item_in_range)
  then obtain ii where ii: "scan_up (\<lambda>ii. ge (item zraw ii) (Inr zpmin)) 0 (int N - 1) (loc_ii u) = Inr ii"
      "0 \<le> ii" "ii < int N - 1"
    using scan_up_char[of 0 "int N - 1" "\<lambda>ii. ge (item zraw ii) (Inr zpmin)" "\<lambda>m. zraw ! nat m \<ge> zpmin" "loc_ii u"] half(4)
    by blast
  have "\<forall>m. 1 < m \<and> m \<le> int N div 2 \<longrightarrow> le (item zana (m - 1)) (Inr zamin) = Inr (zana ! nat (m - 1) \<le> zamin)"
    using len half by (simp add: le_def item_in_range)
  then obtain i where i: "scan_down (\<lambda>i. le (item zana (i - 1)) (Inr zamin)) (int N div 2) 1 (loc_i u) = Inr i"
      "1 < i" "i \<le> int N div 2"
    using scan_down_char[of 1 "int N div 2" "\<lambda>i. le (item zana (i - 1)) (Inr zamin)" "\<lambda>m. zana ! nat (m - 1) \<le> zamin" "loc_i u"] half(2)
    by blast
  have "\<forall>m. int N div 2 \<le> m \<and> m < int N - 1 \<longrightarrow> ge (item zana (m + 1)) (Inr zamax) = Inr (zana ! nat (m + 1) \<ge> zamax)"
    using len half by (simp add: ge_def item_in_range)
  then obtain j where j: "scan_up (\<lambda>j. ge (item zana (j + 1)) (Inr zamax)) (int N div 2) (int N - 1) (loc_j u) = Inr j"
      "int N div 2 \<le> j" "j < int N - 1"
    using scan_up_char[of "int N div 2" "int N - 1" "\<lambda>j. ge (item zana (j + 1)) (Inr zamax)" "\<lambda>m. zana ! nat (m + 1) \<ge> zamax" "loc_j u"] half(3)
    by blast
  have "findcontrolpoints_scans u zana zraw zpmin zpmax zamin zamax = Inr (i, j, ii, jj)"
    unfolding findcontrolpoints_scans_def using len jj(1) ii(1) i(1) j(1) by simp
  then show ?thesis using jj(2-) ii(2-) i(2-) j(2-) by blast
qed

lemma findcontrolpoints_checks:
  assumes len: "length zana = N" "length zraw = N" "length gauss = N" and N: "4 \<le> N"
    and pre: "zamax < zamin" "zpmax < zpmin" "zamax \<le> zpmax" "zamin \<ge> zpmin"
  shows "\<exists>i j ii jj. findcontrolpoints_scans u zana zraw zpmin zpmax zamin zamax
            = Inr (i, j, ii, jj)
      \<and> findcontrolpoints u zana zraw gauss zpmin zpmax zamin zamax =
          (if control_points_ordered zana zraw gauss i j ii jj then Inr (i, j, ii, jj)
           else Inl AssertionError)"
proof -
  obtain i j ii jj where s: "findcontrolpoints_scans u zana zraw zpmin zpmax zamin zamax
            = Inr (i, j, ii, jj)"
     and b: "1 < i" "i \<le> int N div 2" "int N div 2 \<le> j" "j < int N - 1"
       "0 \<le> ii" "ii < int N - 1" "0 < jj" "jj \<le> int N - 1"
    using findcontrolpoints_scans_defined[OF len(1,2) N] by blast
  have r: "0 \<le> i" "i < int N" "0 \<le> j" "j < int N" "0 \<le> ii" "ii < int N" "0 \<le> jj" "jj < int N"
    using b N by auto
  have c: "le (item zana j) (item zraw jj) = Inr (zana ! nat j \<le> zraw ! nat jj)"
      "ge (item zana i) (item zraw ii) = Inr (zana ! nat i \<ge> zraw ! nat ii)"
      "le (item gauss j) (item gauss jj) = Inr (gauss ! nat j \<le> gauss ! nat jj)"
      "ge (item gauss i) (item gauss ii) = Inr (gauss ! nat i \<ge> gauss ! nat ii)"
    using r len by (simp_all add: cmp_items)
  have "findcontrolpoints u zana zraw gauss zpmin zpmax zamin zamax =
          (if control_points_ordered zana zraw gauss i j ii jj then Inr (i, j, ii, jj)
           else Inl AssertionError)"
    unfolding findcontrolpoints_def control_points_ordered_def using pre s c
    by (simp add: py_assert_def assert_that_def)
  then show ?thesis using s by blast
qed

text \<open>
  Claim C3. \<^verbatim>\<open>findcontrolpoints\<close> raises an assertion error on every call that violates
  one of \<open>zamax < zamin\<close>, \<open>zamin \<ge> zpmin\<close>, \<open>zamax \<le> zpmax\<close>; every quadruple it returns
  satisfies \<open>zana[j] \<le> zraw[jj]\<close>, \<open>zana[i] \<ge> zraw[ii]\<close>, \<open>gauss[j] \<le> gauss[jj]\<close> and
  \<open>gauss[i] \<ge> gauss[ii]\<close>; and on arrays of common length \<open>N \<ge> 4\<close> with the opening
  assertions satisfied, the four scans find indices, which are returned when the four
  orderings hold at them, and an assertion error is raised when one of them fails.
\<close>

theorem findcontrolpoints_assertions:
  "(\<not> (zamax < zamin \<and> zamin \<ge> zpmin \<and> zamax \<le> zpmax) \<longrightarrow>
       findcontrolpoints u zana zraw gauss zpmin zpmax zamin zamax = Inl AssertionError)
   \<and> (\<forall>i j ii jj. findcontrolpoints u zana zraw gauss zpmin zpmax zamin zamax = Inr (i, j, ii, jj) \<longrightarrow>
         control_points_ordered zana zraw gauss i j ii jj)
   \<and> (length zana = N \<and> length zraw = N \<and> length gauss = N \<and> 4 \<le> N
        \<and> zamax < zamin \<and> zpmax < zpmin \<and> zamax \<le> zpmax \<and> zamin \<ge> zpmin \<longrightarrow>
       (\<exists>i j ii jj. findcontrolpoints_scans u zana zraw zpmin zpmax zamin zamax
            = Inr (i, j, ii, jj)
          \<and> findcontrolpoints u zana zraw gauss zpmin zpmax zamin zamax =
             (if control_points_ordered zana zraw gauss i j ii jj then Inr (i, j, ii, jj)
              else Inl AssertionError)))"
proof (intro conjI impI allI)
  assume "\<not> (zamax < zamin \<and> zamin \<ge> zpmin \<and> zamax \<le> zpmax)"
  then show "findcontrolpoints u zana zraw gauss zpmin zpmax zamin zamax = Inl AssertionError"
    by (rule findcontrolpoints_rejects)
next
  fix i j ii jj
  assume "findcontrolpoints u zana zraw gauss zpmin zpmax zamin zamax = Inr (i, j, ii, jj)"
  then show "control_points_ordered zana zraw gauss i j ii jj"
    by (rule findcontrolpoints_returns)
next
  assume "length zana = N \<and> length zraw = N \<and> length gauss = N \<and> 4 \<le> N
        \<and> zamax < zamin \<and> zpmax < zpmin \<and> zamax \<le> zpmax \<and> zamin \<ge> zpmin"
  then show "\<exists>i j ii jj. findcontrolpoints_scans u zana zraw zpmin zpmax zamin zamax
            = Inr (i, j, ii, jj)
          \<and> findcontrolpoints u zana zraw gauss zpmin zpmax zamin zamax =
             (if control_points_ordered zana zraw gauss i j ii jj then Inr (i, j, ii, jj)
              else Inl AssertionError)"
    by (elim conjE) (rule findcontrolpoints_checks)
qed


theorem findcontrolpoints_assertions_witness:
  "findcontrolpoints \<lparr>loc_i = 9, loc_j = 9, loc_ii = 9, loc_jj = 9\<rparr>
      [0, 0, 0, 0] [0, 0, 0, 0] [0, 0, 0, 0] 1 (- 1) 2 (- 2) = Inr (2, 2, 2, 1)
   \<and> control_points_ordered [0, 0, 0, 0] [0, 0, 0, 0] [0, 0, 0, 0] 2 2 2 1
   \<and> findcontrolpoints_scans \<lparr>loc_i = 9, loc_j = 9, loc_ii = 9, loc_jj = 9\<rparr>
        [0, 0, 5, 0] [0, 0, 0, 0] 1 (- 1) 2 (- 2) = Inr (2, 2, 2, 1)
   \<and> \<not> control_points_ordered [0, 0, 5, 0] [0, 0, 0, 0] [0, 0, 0, 0] 2 2 2 1
   \<and> findcontrolpoints \<lparr>loc_i = 9, loc_j = 9, loc_ii = 9, loc_jj = 9\<rparr>
        [0, 0, 5, 0] [0, 0, 0, 0] [0, 0, 0, 0] 1 (- 1) 2 (- 2) = Inl AssertionError
   \<and> \<not> ((2 :: real) < - 2)
   \<and> findcontrolpoints \<lparr>loc_i = 9, loc_j = 9, loc_ii = 9, loc_jj = 9\<rparr>
        [0, 0, 0, 0] [0, 0, 0, 0] [0, 0, 0, 0] 1 (- 1) (- 2) 2 = Inl AssertionError"
proof -
  let ?u = "\<lparr>loc_i = 9, loc_j = 9, loc_ii = 9, loc_jj = 9\<rparr>"
  have ev: "findcontrolpoints ?u [0, 0, 0, 0] [0, 0, 0, 0] [0, 0, 0, 0] 1 (- 1) 2 (- 2) = Inr (2, 2, 2, 1)"
    by (simp add: findcontrolpoints_def findcontrolpoints_scans_def py_assert_def assert_that_def
        le_def ge_def item_def)
  have sc: "findcontrolpoints_scans ?u [0, 0, 5, 0] [0, 0, 0, 0] 1 (- 1) 2 (- 2) = Inr (2, 2, 2, 1)"
    by (simp add: findcontrolpoints_scans_def le_def ge_def item_def)
  have bad: "\<not> control_points_ordered [0, 0, 5, 0] [0, 0, 0, 0] [0, 0, 0, 0] 2 2 2 1"
    by (simp add: control_points_ordered_def le_def ge_def item_def)
  have ok: "control_points_ordered [0, 0, 0, 0] [0, 0, 0, 0] [0, 0, 0, 0] 2 2 2 1"
    using findcontrolpoints_assertions[where zamax = "- 2" and zamin = 2 and zpmin = 1
        and zpmax = "- 1" and zana = "[0, 0, 0, 0]" and zraw = "[0, 0, 0, 0]"
        and gauss = "[0, 0, 0, 0]" and N = 4 and u = ?u] ev
    by blast
  have raised: "findcontrolpoints ?u [0, 0, 5, 0] [0, 0, 0, 0] [0, 0, 0, 0] 1 (- 1) 2 (- 2) = Inl AssertionError"
    using findcontrolpoints_assertions[where zamax = "- 2" and zamin = 2 and zpmin = 1
        and zpmax = "- 1" and zana = "[0, 0, 5, 0]" and zraw = "[0, 0, 0, 0]"
        and gauss = "[0, 0, 0, 0]" and N = 4 and u = ?u] sc bad
    by simp
  have rejected: "findcontrolpoints ?u [0, 0, 0, 0] [0, 0, 0, 0] [0, 0, 0, 0] 1 (- 1) (- 2) 2 = Inl AssertionError"
    using findcontrolpoints_assertions[where zamax = 2 and zamin = "- 2" and zpmin = 1
        and zpmax = "- 1" and zana = "[0, 0, 0, 0]" and zraw = "[0, 0, 0, 0]"
        and gauss = "[0, 0, 0, 0]" and N = 4 and u = ?u]
    by simp
  show ?thesis using ev ok sc bad raised rejected by simp
qed

section \<open>The Hermite recurrence\<close>

lemma hermite_row_cong:
  "H ! k = H' ! k \<Longrightarrow> H ! (k - 1) = H' ! (k - 1) \<Longrightarrow> hermite_row y H k = hermite_row y H' k"
  by (simp add: hermite_row_def)

lemma length_hermite_row: "length (hermite_row y H k) = length y"
  by (simp add: hermite_row_def)

lemma hermite_loop_invariant:
  "1 \<le> n \<Longrightarrow>
   length (foldl (hermite_step y) H0 [1..<n]) = length H0
   \<and> (\<forall>idx. idx \<le> 1 \<or> n < idx \<longrightarrow> foldl (hermite_step y) H0 [1..<n] ! idx = H0 ! idx)
   \<and> (\<forall>k. 1 \<le> k \<and> k < n \<and> k + 1 < length H0 \<longrightarrow>
         foldl (hermite_step y) H0 [1..<n] ! (k + 1) = hermite_row y (foldl (hermite_step y) H0 [1..<n]) k)"
proof (induction n)
  case 0
  then show ?case by simp
next
  case (Suc n)
  show ?case
  proof (cases "n = 0")
    case True
    then show ?thesis by simp
  next
    case False
    then have n1: "1 \<le> n" by simp
    let ?F = "foldl (hermite_step y) H0 [1..<n]"
    let ?G = "foldl (hermite_step y) H0 [1..<Suc n]"
    have G: "?G = ?F[n + 1 := hermite_row y ?F n]"
      using n1 by (simp add: hermite_step_def)
    have IH: "length ?F = length H0"
      "\<forall>idx. idx \<le> 1 \<or> n < idx \<longrightarrow> ?F ! idx = H0 ! idx"
      "\<forall>k. 1 \<le> k \<and> k < n \<and> k + 1 < length H0 \<longrightarrow> ?F ! (k + 1) = hermite_row y ?F k"
      using Suc.IH[OF n1] by auto
    have len: "length ?G = length H0" using G IH(1) by simp
    have keep: "\<forall>idx. idx \<le> 1 \<or> Suc n < idx \<longrightarrow> ?G ! idx = H0 ! idx"
      using G IH(2) n1 by auto
    have rec: "\<forall>k. 1 \<le> k \<and> k < Suc n \<and> k + 1 < length H0 \<longrightarrow> ?G ! (k + 1) = hermite_row y ?G k"
    proof (intro allI impI)
      fix k assume k: "1 \<le> k \<and> k < Suc n \<and> k + 1 < length H0"
      have same: "?G ! k = ?F ! k" "?G ! (k - 1) = ?F ! (k - 1)" using G k by auto
      have row: "hermite_row y ?G k = hermite_row y ?F k"
        using same by (rule hermite_row_cong)
      show "?G ! (k + 1) = hermite_row y ?G k"
      proof (cases "k = n")
        case True
        then show ?thesis using G k IH(1) row by simp
      next
        case False
        then have "k < n" using k by simp
        then have "?G ! (k + 1) = ?F ! (k + 1)" using G by simp
        then show ?thesis using IH(3) k \<open>k < n\<close> row by simp
      qed
    qed
    show ?thesis using len keep rec by blast
  qed
qed

lemma c_int_wrap_id: "c_int_range k \<Longrightarrow> c_int_wrap k = k"
  by (simp add: c_int_range_def c_int_wrap_def mod_pos_pos_trivial)

lemma recurrentH_rows:
  assumes K: "1 \<le> K" "K < 2 ^ 31 - 1"
  shows "\<exists>H. recurrentH y K = Inr H \<and> ncols H = length y \<and> length (rows H) = nat K + 1
     \<and> (\<forall>k. k \<le> nat K \<longrightarrow> length (rows H ! k) = length y)
     \<and> rows H ! 0 = replicate (length y) 1 \<and> rows H ! 1 = map uminus y
     \<and> (\<forall>k. 1 \<le> k \<and> k < nat K \<longrightarrow> rows H ! (k + 1) = hermite_row y (rows H) k)"
proof -
  let ?H0 = "(replicate (nat K + 1) (replicate (length y) (1::real)))[1 := map uminus y]"
  let ?R = "foldl (hermite_step y) ?H0 [1..<nat K]"
  have n1: "1 \<le> nat K" using K by simp
  have rng: "c_int_range K" "c_int_range (K + 1)" using K by (simp_all add: c_int_range_def)
  have w: "c_int_wrap (K + 1) = K + 1" using rng(2) by (rule c_int_wrap_id)
  have nk: "nat (K + 1) = nat K + 1" using K by simp
  have inv: "length ?R = length ?H0"
    "\<forall>idx. idx \<le> 1 \<or> nat K < idx \<longrightarrow> ?R ! idx = ?H0 ! idx"
    "\<forall>k. 1 \<le> k \<and> k < nat K \<and> k + 1 < length ?H0 \<longrightarrow> ?R ! (k + 1) = hermite_row y ?R k"
    using hermite_loop_invariant[OF n1, of y ?H0] by blast+
  have eq: "recurrentH y K = Inr \<lparr>ncols = length y, rows = ?R\<rparr>"
    using K rng(1) by (simp add: recurrentH_def w nk)
  have len: "length ?R = nat K + 1" using inv(1) by simp
  have r0: "?R ! 0 = replicate (length y) 1" using inv(2) n1 by simp
  have r1: "?R ! 1 = map uminus y" using inv(2) n1 by simp
  have rk: "\<forall>k. 1 \<le> k \<and> k < nat K \<longrightarrow> ?R ! (k + 1) = hermite_row y ?R k"
    using inv(3) by simp
  have lens: "\<forall>k. k \<le> nat K \<longrightarrow> length (?R ! k) = length y"
  proof (intro allI impI)
    fix k assume k: "k \<le> nat K"
    consider "k = 0" | "k = 1" | "2 \<le> k" by arith
    then show "length (?R ! k) = length y"
    proof cases
      case 1 then show ?thesis using r0 by simp
    next
      case 2 then show ?thesis using r1 by simp
    next
      case 3
      then have "1 \<le> k - 1 \<and> k - 1 < nat K" using k by arith
      then have "?R ! (k - 1 + 1) = hermite_row y ?R (k - 1)" using rk by blast
      then show ?thesis using 3 by (simp add: length_hermite_row)
    qed
  qed
  show ?thesis using eq len r0 r1 rk lens by simp
qed

lemma recurrentH_returns:
  assumes "recurrentH y K = Inr H"
  shows "1 \<le> K \<and> K < 2 ^ 31 - 1"
proof -
  have a: "c_int_range K" "1 \<le> K" "\<not> c_int_wrap (K + 1) < 0"
    using assms by (auto simp add: recurrentH_def split: if_splits)
  have "K < 2 ^ 31 - 1"
  proof (rule ccontr)
    assume "\<not> K < 2 ^ 31 - 1"
    then have "K = 2 ^ 31 - 1" using a(1) by (simp add: c_int_range_def)
    then have "c_int_wrap (K + 1) < 0" by (simp add: c_int_wrap_def)
    then show False using a(3) by simp
  qed
  then show ?thesis using a(2) by simp
qed

text \<open>
  Claim C7, as amended. For \<open>1 \<le> K < 2^31 - 1\<close>, \<^verbatim>\<open>recurrentH(y, K)\<close> returns a matrix of
  \<open>K + 1\<close> rows of \<open>len(y)\<close> entries with \<open>H[0,:] = 1\<close>, \<open>H[1,:] = -y\<close> and, for
  \<open>k = 1, \<dots>, K - 1\<close>,
  \<open>H[k+1,:] = -(1/sqrt(k+1)) * y * H[k,:] - sqrt(k/(k+1)) * H[k-1,:]\<close>. A call with
  \<open>K < 1\<close> is rejected: by the assertion when \<open>K\<close> fits a C \<^verbatim>\<open>int\<close>, as an overflow when
  it does not. A call with \<open>K \<ge> 2^31\<close> is an overflow too, and \<open>K = 2^31 - 1\<close> is refused
  by numpy, because \<open>K + 1\<close> wraps to a negative number of rows. \<open>K = 2\<close>, \<open>y = [0]\<close> gives
  \<open>[[1], [0], [-1/sqrt 2]]\<close>.
\<close>

theorem recurrentH_recurrence:
  "(K < - (2 ^ 31) \<or> 2 ^ 31 \<le> K \<longrightarrow> recurrentH y K = Inl OverflowError)
   \<and> (- (2 ^ 31) \<le> K \<and> K < 1 \<longrightarrow> recurrentH y K = Inl AssertionError)
   \<and> (K = 2 ^ 31 - 1 \<longrightarrow> recurrentH y K = Inl ValueError)
   \<and> (1 \<le> K \<and> K < 2 ^ 31 - 1 \<longrightarrow>
        (\<exists>H. recurrentH y K = Inr H \<and> ncols H = length y \<and> length (rows H) = nat K + 1
           \<and> (\<forall>k. k \<le> nat K \<longrightarrow> length (rows H ! k) = length y)
           \<and> (\<forall>n. n < length y \<longrightarrow>
                 rows H ! 0 ! n = 1 \<and> rows H ! 1 ! n = - y ! n
                 \<and> (\<forall>k. 1 \<le> k \<and> k < nat K \<longrightarrow>
                       rows H ! (k + 1) ! n =
                         - (1 / sqrt (real (k + 1))) * y ! n * rows H ! k ! n
                         - sqrt (real k / real (k + 1)) * rows H ! (k - 1) ! n))))
   \<and> recurrentH [0] 2 = Inr \<lparr>ncols = 1, rows = [[1], [0], [- (1 / sqrt 2)]]\<rparr>"
proof (intro conjI impI)
  assume "K < - (2 ^ 31) \<or> 2 ^ 31 \<le> K"
  then show "recurrentH y K = Inl OverflowError"
    by (auto simp add: recurrentH_def c_int_range_def)
next
  assume "- (2 ^ 31) \<le> K \<and> K < 1"
  then show "recurrentH y K = Inl AssertionError"
    by (simp add: recurrentH_def c_int_range_def)
next
  assume "K = 2 ^ 31 - 1"
  then show "recurrentH y K = Inl ValueError"
    by (simp add: recurrentH_def c_int_range_def c_int_wrap_def)
next
  assume "1 \<le> K \<and> K < 2 ^ 31 - 1"
  then obtain H where H: "recurrentH y K = Inr H" "ncols H = length y" "length (rows H) = nat K + 1"
      "\<forall>k. k \<le> nat K \<longrightarrow> length (rows H ! k) = length y"
      "rows H ! 0 = replicate (length y) 1" "rows H ! 1 = map uminus y"
      "\<forall>k. 1 \<le> k \<and> k < nat K \<longrightarrow> rows H ! (k + 1) = hermite_row y (rows H) k"
    using recurrentH_rows[of K y] by blast
  have "\<forall>n. n < length y \<longrightarrow>
                 rows H ! 0 ! n = 1 \<and> rows H ! 1 ! n = - y ! n
                 \<and> (\<forall>k. 1 \<le> k \<and> k < nat K \<longrightarrow>
                       rows H ! (k + 1) ! n =
                         - (1 / sqrt (real (k + 1))) * y ! n * rows H ! k ! n
                         - sqrt (real k / real (k + 1)) * rows H ! (k - 1) ! n)"
    using H(5,6,7) by (simp add: hermite_row_def)
  then show "\<exists>H. recurrentH y K = Inr H \<and> ncols H = length y \<and> length (rows H) = nat K + 1
           \<and> (\<forall>k. k \<le> nat K \<longrightarrow> length (rows H ! k) = length y)
           \<and> (\<forall>n. n < length y \<longrightarrow>
                 rows H ! 0 ! n = 1 \<and> rows H ! 1 ! n = - y ! n
                 \<and> (\<forall>k. 1 \<le> k \<and> k < nat K \<longrightarrow>
                       rows H ! (k + 1) ! n =
                         - (1 / sqrt (real (k + 1))) * y ! n * rows H ! k ! n
                         - sqrt (real k / real (k + 1)) * rows H ! (k - 1) ! n))"
    using H(1-4) by blast
next
  show "recurrentH [0] 2 = Inr \<lparr>ncols = 1, rows = [[1], [0], [- (1 / sqrt 2)]]\<rparr>"
    by (simp add: recurrentH_def c_int_range_def c_int_wrap_def hermite_step_def hermite_row_def
        real_sqrt_divide eval_nat_numeral)
qed

text \<open>
  Claim C7 as stated is for every integer \<open>K \<ge> 1\<close>. At the largest C \<^verbatim>\<open>int\<close> the
  number of rows \<open>K + 1\<close> wraps to \<open>-2^31\<close> and \<^verbatim>\<open>np.ones\<close> raises, whatever \<open>y\<close> is.
\<close>

theorem recurrentH_recurrence_counterexample:
  "(1 :: int) \<le> 2147483647 \<and> recurrentH [] 2147483647 = Inl ValueError"
  by (simp add: recurrentH_def c_int_range_def c_int_wrap_def)

theorem recurrentH_recurrence_witness:
  "(2 :: int) ^ 31 \<le> 2 ^ 31 \<and> recurrentH [2, 3] (2 ^ 31) = Inl OverflowError
   \<and> - (2 ^ 31) \<le> (0 :: int) \<and> (0 :: int) < 1 \<and> recurrentH [2, 3] 0 = Inl AssertionError
   \<and> recurrentH [2, 3] (2 ^ 31 - 1) = Inl ValueError
   \<and> (1 :: int) \<le> 2 \<and> (2 :: int) < 2 ^ 31 - 1
   \<and> recurrentH [0] 2 = Inr \<lparr>ncols = 1, rows = [[1], [0], [- (1 / sqrt 2)]]\<rparr>
   \<and> [[1], [0], [- (1 / sqrt 2)]] ! (1 + 1) ! 0 =
        - (1 / sqrt (real (1 + 1))) * [0] ! 0 * [[1], [0 :: real], [- (1 / sqrt 2)]] ! 1 ! 0
        - sqrt (real 1 / real (1 + 1)) * [[1 :: real], [0], [- (1 / sqrt 2)]] ! (1 - 1) ! 0"
proof -
  have h: "(2 :: int) ^ 31 \<le> 2 ^ 31" "- (2 ^ 31) \<le> (0 :: int) \<and> (0 :: int) < 1"
      "(1 :: int) \<le> 2 \<and> (2 :: int) < 2 ^ 31 - 1"
    by simp_all
  have a: "recurrentH [2, 3] (2 ^ 31) = Inl OverflowError"
    using recurrentH_recurrence[of "2 ^ 31" "[2, 3]"] h(1) by blast
  have b: "recurrentH [2, 3] 0 = Inl AssertionError"
    using recurrentH_recurrence[of 0 "[2, 3]"] h(2) by blast
  have c: "recurrentH [2, 3] (2 ^ 31 - 1) = Inl ValueError"
    using recurrentH_recurrence[of "2 ^ 31 - 1" "[2, 3]"] by blast
  have d: "recurrentH [0] 2 = Inr \<lparr>ncols = 1, rows = [[1], [0], [- (1 / sqrt 2)]]\<rparr>"
    using recurrentH_recurrence[of 2 "[0]"] by blast
  have e: "[[1], [0], [- (1 / sqrt 2)]] ! (1 + 1) ! 0 =
        - (1 / sqrt (real (1 + 1))) * [0] ! 0 * [[1], [0 :: real], [- (1 / sqrt 2)]] ! 1 ! 0
        - sqrt (real 1 / real (1 + 1)) * [[1 :: real], [0], [- (1 / sqrt 2)]] ! (1 - 1) ! 0"
    using recurrentH_recurrence[of 2 "[0]"] d h(3) by (simp add: real_sqrt_divide)
  show ?thesis using h a b c d e by blast
qed

section \<open>The expansion\<close>

lemma expand_loop_sum:
  "\<forall>p \<in> set ps. p < length (rows H) \<Longrightarrow> wf_matrix H \<Longrightarrow> length Z = ncols H \<Longrightarrow>
   \<exists>Z'. expand_loop PCI H r ps Z = Inr Z' \<and> length Z' = ncols H
      \<and> (\<forall>n<ncols H. Z' ! n = Z ! n + (\<Sum>p\<leftarrow>ps. PCI ! p * r ^ p * rows H ! p ! n))"
proof (induction ps arbitrary: Z)
  case Nil
  then show ?case by simp
next
  case (Cons p ps)
  let ?Z1 = "map2 (+) Z (map (\<lambda>h. PCI ! p * h * r ^ p) (rows H ! p))"
  have p: "p < length (rows H)" using Cons.prems(1) by simp
  then have row: "length (rows H ! p) = ncols H"
    using Cons.prems(2) by (simp add: wf_matrix_def list_all_length)
  have l1: "length ?Z1 = ncols H" using row Cons.prems(3) by simp
  have v1: "\<forall>n<ncols H. ?Z1 ! n = Z ! n + PCI ! p * r ^ p * rows H ! p ! n"
    using row Cons.prems(3) by simp
  from Cons.IH[of ?Z1] Cons.prems l1
  obtain Z' where Z': "expand_loop PCI H r ps ?Z1 = Inr Z'" "length Z' = ncols H"
      "\<forall>n<ncols H. Z' ! n = ?Z1 ! n + (\<Sum>p\<leftarrow>ps. PCI ! p * r ^ p * rows H ! p ! n)"
    by auto
  have "expand_loop PCI H r (p # ps) Z = Inr Z'" using p Z'(1) by simp
  moreover have "\<forall>n<ncols H. Z' ! n = Z ! n + (\<Sum>q\<leftarrow>p # ps. PCI ! q * r ^ q * rows H ! q ! n)"
    using Z'(3) v1 by simp
  ultimately show ?case using Z'(2) by blast
qed

lemma expand_anamor_sum:
  assumes "length PCI = K + 1" "length (rows H) = K + 1" "wf_matrix H"
  shows "\<exists>Z. expand_anamor PCI H r = Inr Z \<and> length Z = ncols H
      \<and> (\<forall>n<ncols H. Z ! n = PCI ! 0 + (\<Sum>p = 1..K. PCI ! p * r ^ p * rows H ! p ! n))"
proof -
  obtain c cs where PCI: "PCI = c # cs" using assms(1) by (cases PCI) auto
  have "\<forall>p \<in> set [1..<length PCI]. p < length (rows H)" using assms(1,2) by auto
  from expand_loop_sum[OF this assms(3), of "replicate (ncols H) c" PCI r]
  obtain Z where Z: "expand_loop PCI H r [1..<length PCI] (replicate (ncols H) c) = Inr Z"
      "length Z = ncols H"
      "\<forall>n<ncols H. Z ! n = replicate (ncols H) c ! n + (\<Sum>p\<leftarrow>[1..<length PCI]. PCI ! p * r ^ p * rows H ! p ! n)"
    by auto
  have e: "expand_anamor PCI H r = Inr Z" using Z(1) PCI by (simp add: expand_anamor_def)
  have s: "{1..<length PCI} = {1..K}" using assms(1) by auto
  have conv: "(\<Sum>p\<leftarrow>[1..<length PCI]. f p) = (\<Sum>p = 1..K. f p)" for f :: "nat \<Rightarrow> real"
    by (simp only: interv_sum_list_conv_sum_set_nat set_upt s)
  have c: "PCI ! 0 = c" using PCI by simp
  have "\<forall>n<ncols H. Z ! n = PCI ! 0 + (\<Sum>p = 1..K. PCI ! p * r ^ p * rows H ! p ! n)"
  proof (intro allI impI)
    fix n assume n: "n < ncols H"
    then have "Z ! n = replicate (ncols H) c ! n + (\<Sum>p\<leftarrow>[1..<length PCI]. PCI ! p * r ^ p * rows H ! p ! n)"
      using Z(3) by blast
    also have "replicate (ncols H) c ! n = PCI ! 0" using n c by simp
    finally show "Z ! n = PCI ! 0 + (\<Sum>p = 1..K. PCI ! p * r ^ p * rows H ! p ! n)"
      by (simp only: conv)
  qed
  then show ?thesis using e Z(2) by blast
qed

text \<open>
  Claim C8. For a coefficient vector \<open>PCI\<close> of length \<open>K + 1\<close>, a matrix \<open>H\<close> of \<open>K + 1\<close>
  rows and a scalar \<open>r\<close>, \<^verbatim>\<open>expand_anamor(PCI, H, r)\<close> is the vector of entries
  \<open>PCI[0] + (\<Sum>p = 1..K. PCI[p] * r^p * H[p,n])\<close>, as long as \<open>H\<close> has columns; for \<open>r = 0\<close>
  it is the constant vector \<open>PCI[0]\<close>.
\<close>

theorem expand_anamor_series:
  assumes "length PCI = K + 1" "length (rows H) = K + 1" "wf_matrix H"
  shows "\<exists>Z. expand_anamor PCI H r = Inr Z \<and> length Z = ncols H
      \<and> (\<forall>n<ncols H. Z ! n = PCI ! 0 + (\<Sum>p = 1..K. PCI ! p * r ^ p * rows H ! p ! n))
      \<and> (r = 0 \<longrightarrow> Z = replicate (ncols H) (PCI ! 0))"
proof -
  obtain Z where Z: "expand_anamor PCI H r = Inr Z" "length Z = ncols H"
      "\<forall>n<ncols H. Z ! n = PCI ! 0 + (\<Sum>p = 1..K. PCI ! p * r ^ p * rows H ! p ! n)"
    using expand_anamor_sum[OF assms] by blast
  have "Z = replicate (ncols H) (PCI ! 0)" if "r = 0"
  proof (rule nth_equalityI)
    show "length Z = length (replicate (ncols H) (PCI ! 0))" using Z(2) by simp
  next
    fix n assume "n < length Z"
    then have n: "n < ncols H" using Z(2) by simp
    have "(\<Sum>p = 1..K. PCI ! p * r ^ p * rows H ! p ! n) = 0"
      using that by (intro sum.neutral) auto
    then show "Z ! n = replicate (ncols H) (PCI ! 0) ! n" using Z(3) n by simp
  qed
  then show ?thesis using Z by blast
qed

theorem expand_anamor_series_witness:
  "length [5, 2, 3 :: real] = 2 + 1 \<and> length (rows \<lparr>ncols = 2, rows = [[1, 1], [4, - 1], [0, 2]]\<rparr>) = 2 + 1
   \<and> wf_matrix \<lparr>ncols = 2, rows = [[1, 1], [4, - 1], [0, 2]]\<rparr>
   \<and> expand_anamor [5, 2, 3] \<lparr>ncols = 2, rows = [[1, 1], [4, - 1], [0, 2]]\<rparr> (1 / 2) = Inr [9, 11 / 2]
   \<and> expand_anamor [5, 2, 3] \<lparr>ncols = 2, rows = [[1, 1], [4, - 1], [0, 2]]\<rparr> 0 = Inr [5, 5]"
proof -
  let ?H = "\<lparr>ncols = 2, rows = [[1, 1], [4, - 1], [0, 2 :: real]]\<rparr>"
  have h: "length [5, 2, 3 :: real] = 2 + 1" "length (rows ?H) = 2 + 1" "wf_matrix ?H"
    by (simp_all add: wf_matrix_def)
  have a: "expand_anamor [5, 2, 3] ?H (1 / 2) = Inr [9, 11 / 2]"
    by (simp add: expand_anamor_def eval_nat_numeral)
  have b: "expand_anamor [5, 2, 3] ?H 0 = Inr [5, 5]"
    using expand_anamor_series[OF h, of 0] by (auto simp add: eval_nat_numeral)
  show ?thesis using h a b by blast
qed

section \<open>The coefficient fit\<close>

lemma fit_step_first:
  "1 \<le> p \<Longrightarrow> fst (fit_step z y H p s i) ! 0 = fst s ! 0"
  by (simp add: fit_step_def Let_def)

lemma fit_inner_first:
  "1 \<le> p \<Longrightarrow> fst (foldl (fit_step z y H p) s is) ! 0 = fst s ! 0"
  by (induction "is" arbitrary: s) (simp_all add: fit_step_first)

lemma fit_outer_first:
  "\<forall>p \<in> set ps. 1 \<le> p \<Longrightarrow>
   fst (foldl (\<lambda>s p. foldl (fit_step z y H p) s is) s ps) ! 0 = fst s ! 0"
  by (induction ps arbitrary: s) (simp_all add: fit_inner_first)

lemma fit_PCI_first:
  assumes "fit_PCI z y H meanz = Inr (PCI, g)"
  shows "PCI ! 0 = np_mean z"
proof -
  have n: "length (rows H) \<noteq> 0" and ok: "length y = length z \<and> length z = ncols H"
    using assms by (auto simp add: fit_PCI_def Let_def split: if_splits)
  let ?s0 = "((replicate (length (rows H)) (Finite 0))[0 := np_mean z], replicate (ncols H) (0::real))"
  have "(PCI, g) = foldl (\<lambda>s p. foldl (fit_step z y H p) s [1..<ncols H]) ?s0 [1..<length (rows H)]"
    using assms n ok by (simp add: fit_PCI_def Let_def)
  then have "PCI = fst (foldl (\<lambda>s p. foldl (fit_step z y H p) s [1..<ncols H]) ?s0 [1..<length (rows H)])"
    by (metis fst_conv)
  also have "\<dots> ! 0 = fst ?s0 ! 0" by (rule fit_outer_first) simp
  finally show ?thesis using n by simp
qed

text \<open>
  Claim C2 says that the first coefficient is the supplied \<^verbatim>\<open>meanz\<close> when one is given.
  The function replaces a not-a-number \<^verbatim>\<open>meanz\<close> by the mean of \<open>z\<close> and then never reads
  it: the first coefficient is always \<^verbatim>\<open>np.mean(z)\<close>. With \<open>z = [1, 3]\<close> and
  \<open>meanz = 5\<close> the first coefficient is \<open>2\<close>.
\<close>

theorem fit_PCI_ignores_meanz:
  "fit_PCI [1, 3] [0, 0] \<lparr>ncols = 2, rows = [[1, 1], [0, 0]]\<rparr> (Finite 5)
     = Inr ([Finite 2, Finite (- (2 * stnormpdf 0))], [0, stnormpdf 0])"
  by (simp add: fit_PCI_def Let_def fit_step_def np_mean_def np_isnan_def add_double_def eval_nat_numeral)

section \<open>The interpolation of numpy\<close>

lemma np_interp_two: "np_interp x [x0, x1] [f0, f1] = Inr (interp2 x x0 x1 f0 f1)"
  by (simp add: np_interp_def binary_search_with_guess_def linear_search_def interp2_def Let_def)

lemma np_interp_defined:
  "xp \<noteq> [] \<Longrightarrow> length fp = length xp \<Longrightarrow> \<exists>v. np_interp x xp fp = Inr v"
  by (simp add: np_interp_def Let_def)

lemma linear_search_bracket:
  assumes "arr \<noteq> []" "arr ! 0 \<le> key"
  shows "linear_search key arr < length arr \<and> arr ! linear_search key arr \<le> key
     \<and> (linear_search key arr + 1 < length arr \<longrightarrow> key < arr ! (linear_search key arr + 1))"
proof -
  obtain a t where arr: "arr = a # t" using assms(1) by (cases arr) auto
  let ?P = "\<lambda>v. key \<ge> v"
  let ?j = "length (takeWhile ?P t)"
  have j: "linear_search key arr = ?j" by (simp add: linear_search_def arr)
  have jl: "?j \<le> length t" by (rule length_takeWhile_le)
  have low: "arr ! ?j \<le> key"
  proof (cases "?j")
    case 0
    then show ?thesis using assms(2) arr by simp
  next
    case (Suc m)
    then have m: "m < length (takeWhile ?P t)" by simp
    then have "takeWhile ?P t ! m \<in> set (takeWhile ?P t)" by (rule nth_mem)
    then have "?P (takeWhile ?P t ! m)" by (rule set_takeWhileD[THEN conjunct2])
    moreover have "takeWhile ?P t ! m = t ! m" using m by (rule takeWhile_nth)
    ultimately show ?thesis using Suc arr by simp
  qed
  have up: "?j + 1 < length arr \<longrightarrow> key < arr ! (?j + 1)"
  proof
    assume "?j + 1 < length arr"
    then have "?j < length t" using arr by simp
    then have "\<not> ?P (t ! ?j)" by (rule nth_length_takeWhile)
    then show "key < arr ! (?j + 1)" using arr by simp
  qed
  show ?thesis using j jl low up arr by simp
qed

lemma bisect_bracket:
  "imin \<le> imax \<Longrightarrow> imax \<le> length arr \<Longrightarrow>
   (imin < imax \<and> arr ! imin \<le> key) \<or> (1 \<le> imin \<and> arr ! (imin - 1) \<le> key) \<Longrightarrow>
   imax = length arr \<or> key < arr ! imax \<Longrightarrow>
   1 \<le> bisect key arr imin imax \<and> bisect key arr imin imax \<le> length arr
   \<and> arr ! (bisect key arr imin imax - 1) \<le> key
   \<and> (bisect key arr imin imax = length arr \<or> key < arr ! bisect key arr imin imax)"
proof (induction key arr imin imax rule: bisect.induct)
  case (1 key arr imin imax)
  show ?case
  proof (cases "imin < imax")
    case False
    then have e: "bisect key arr imin imax = imin" by (subst bisect.simps) simp
    have "imin = imax" using False "1.prems"(1) by simp
    then show ?thesis using e False "1.prems" by auto
  next
    case True
    let ?mid = "imin + (imax - imin) div 2"
    have mid: "imin \<le> ?mid" "?mid < imax" using True by auto
    show ?thesis
    proof (cases "key \<ge> arr ! ?mid")
      case ge: True
      have e: "bisect key arr imin imax = bisect key arr (?mid + 1) imax"
        using True ge by (subst bisect.simps) (simp add: Let_def)
      have "1 \<le> bisect key arr (?mid + 1) imax \<and> bisect key arr (?mid + 1) imax \<le> length arr
         \<and> arr ! (bisect key arr (?mid + 1) imax - 1) \<le> key
         \<and> (bisect key arr (?mid + 1) imax = length arr \<or> key < arr ! bisect key arr (?mid + 1) imax)"
        using "1.IH"(1)[OF True refl ge] mid ge "1.prems"(2,4) by simp
      then show ?thesis using e by simp
    next
      case lt: False
      have e: "bisect key arr imin imax = bisect key arr imin ?mid"
        using True lt by (subst bisect.simps) (simp add: Let_def)
      have ne: "arr ! imin \<le> key \<Longrightarrow> imin < ?mid"
      proof -
        assume a: "arr ! imin \<le> key"
        have "?mid \<noteq> imin"
        proof
          assume "?mid = imin"
          then have "arr ! ?mid = arr ! imin" by simp
          then show False using a lt by simp
        qed
        then show "imin < ?mid" using mid(1) by simp
      qed
      have pre: "(imin < ?mid \<and> arr ! imin \<le> key) \<or> (1 \<le> imin \<and> arr ! (imin - 1) \<le> key)"
        using "1.prems"(3) ne by blast
      have "1 \<le> bisect key arr imin ?mid \<and> bisect key arr imin ?mid \<le> length arr
         \<and> arr ! (bisect key arr imin ?mid - 1) \<le> key
         \<and> (bisect key arr imin ?mid = length arr \<or> key < arr ! bisect key arr imin ?mid)"
        using "1.IH"(2)[OF True refl lt] mid lt "1.prems"(2) pre by simp
      then show ?thesis using e by simp
    qed
  qed
qed


lemma bisect_index:
  assumes "imin \<le> imax" "imax \<le> length arr"
    "(imin < imax \<and> arr ! imin \<le> key) \<or> (1 \<le> imin \<and> arr ! (imin - 1) \<le> key)"
    "imax = length arr \<or> key < arr ! imax"
  shows "\<exists>j. int (bisect key arr imin imax) - 1 = int j \<and> j < length arr \<and> arr ! j \<le> key
     \<and> (j + 1 < length arr \<longrightarrow> key < arr ! (j + 1))"
proof -
  let ?r = "bisect key arr imin imax"
  have r: "1 \<le> ?r" "?r \<le> length arr" "arr ! (?r - 1) \<le> key" "?r = length arr \<or> key < arr ! ?r"
    using bisect_bracket[OF assms] by blast+
  have "int ?r - 1 = int (?r - 1)" using r(1) by simp
  moreover have "?r - 1 < length arr" using r(1,2) by simp
  moreover have "?r - 1 + 1 < length arr \<longrightarrow> key < arr ! (?r - 1 + 1)" using r(1,4) by auto
  ultimately show ?thesis using r(3) by blast
qed

lemma guess_search_bracket:
  assumes g: "1 \<le> g" "g \<le> int (length arr) - 3" and a0: "arr ! 0 \<le> key"
  shows "\<exists>j. guess_search key arr g = int j \<and> j < length arr \<and> arr ! j \<le> key
     \<and> (j + 1 < length arr \<longrightarrow> key < arr ! (j + 1))"
proof -
  consider (a) "key < arr ! nat g" "key < arr ! nat (g - 1)"
    | (b) "key < arr ! nat g" "\<not> key < arr ! nat (g - 1)"
    | (c) "\<not> key < arr ! nat g" "key < arr ! nat (g + 1)"
    | (d) "\<not> key < arr ! nat g" "\<not> key < arr ! nat (g + 1)" "key < arr ! nat (g + 2)"
    | (e) "\<not> key < arr ! nat g" "\<not> key < arr ! nat (g + 1)" "\<not> key < arr ! nat (g + 2)"
    by blast
  then show ?thesis
  proof cases
    case a
    define imin where "imin = (if g > 8 \<and> key \<ge> arr ! nat (g - 8) then nat (g - 8) else 0)"
    define imax where "imax = nat (g - 1)"
    have g2: "2 \<le> g"
    proof (rule ccontr)
      assume "\<not> 2 \<le> g"
      then have "g = 1" using g(1) by simp
      then show False using a(2) a0 by simp
    qed
    have lt: "imin < imax" using g2 unfolding imin_def imax_def by (simp split: if_splits) arith?
    have p1: "imin \<le> imax" using lt by simp
    have p2: "imax \<le> length arr" using g(2) by (simp add: imax_def)
    have "arr ! imin \<le> key" using a0 by (simp add: imin_def)
    with lt have "imin < imax \<and> arr ! imin \<le> key" by simp
    then have p3: "(imin < imax \<and> arr ! imin \<le> key) \<or> (1 \<le> imin \<and> arr ! (imin - 1) \<le> key)"
      by blast
    have p4: "imax = length arr \<or> key < arr ! imax" using a(2) by (simp add: imax_def)
    have "guess_search key arr g = int (bisect key arr imin imax) - 1"
      unfolding guess_search_def imin_def imax_def using a by simp
    then show ?thesis using bisect_index[OF p1 p2 p3 p4] by simp
  next
    case b
    have "guess_search key arr g = int (nat (g - 1))"
      unfolding guess_search_def using b g(1) by simp
    moreover have "nat (g - 1) < length arr" using g by simp
    moreover have "nat (g - 1) + 1 = nat g" using g(1) by simp
    moreover have "arr ! nat (g - 1) \<le> key" using b(2) by simp
    ultimately show ?thesis using b(1) by (intro exI[of _ "nat (g - 1)"]) simp
  next
    case c
    have "guess_search key arr g = int (nat g)"
      unfolding guess_search_def using c g(1) by simp
    moreover have "nat g < length arr" using g by simp
    moreover have "nat g + 1 = nat (g + 1)" using g(1) by simp
    moreover have "arr ! nat g \<le> key" using c(1) by simp
    ultimately show ?thesis using c(2) by (intro exI[of _ "nat g"]) simp
  next
    case d
    have "guess_search key arr g = int (nat (g + 1))"
      unfolding guess_search_def using d g(1) by simp
    moreover have "nat (g + 1) < length arr" using g by simp
    moreover have "nat (g + 1) + 1 = nat (g + 2)" using g(1) by simp
    moreover have "arr ! nat (g + 1) \<le> key" using d(2) by simp
    ultimately show ?thesis using d(3) by (intro exI[of _ "nat (g + 1)"]) simp
  next
    case e
    define imin where "imin = nat (g + 2)"
    define imax where "imax = (if g < int (length arr) - 8 - 1 \<and> key < arr ! nat (g + 8)
                               then nat (g + 8) else length arr)"
    have lt: "imin < imax" using g unfolding imin_def imax_def by (simp split: if_splits) arith?
    have p1: "imin \<le> imax" using lt by simp
    have p2: "imax \<le> length arr" using g unfolding imax_def by (simp split: if_splits) arith?
    note lt
    moreover have "arr ! imin \<le> key" using e(3) by (simp add: imin_def)
    ultimately have p3: "(imin < imax \<and> arr ! imin \<le> key) \<or> (1 \<le> imin \<and> arr ! (imin - 1) \<le> key)"
      by blast
    have p4: "imax = length arr \<or> key < arr ! imax" by (simp add: imax_def)
    have "guess_search key arr g = int (bisect key arr imin imax) - 1"
      unfolding guess_search_def imin_def imax_def using e by simp
    then show ?thesis using bisect_index[OF p1 p2 p3 p4] by simp
  qed
qed

lemma clamp_guess_range: "5 \<le> len \<Longrightarrow> 1 \<le> clamp_guess guess len \<and> clamp_guess guess len \<le> len - 3"
  by (simp add: clamp_guess_def Let_def)

lemma search_bracket:
  assumes ne: "arr \<noteq> []" and hi: "\<not> key > arr ! nat (int (length arr) - 1)"
    and lo: "\<not> key < arr ! 0"
  shows "\<exists>j. binary_search_with_guess key arr guess = int j \<and> j < length arr \<and> arr ! j \<le> key
     \<and> (j + 1 < length arr \<longrightarrow> key < arr ! (j + 1))"
proof (cases "int (length arr) \<le> 4")
  case True
  then have "binary_search_with_guess key arr guess = int (linear_search key arr)"
    using hi lo by (simp add: binary_search_with_guess_def Let_def)
  moreover have "arr ! 0 \<le> key" using lo by simp
  ultimately show ?thesis using linear_search_bracket[OF ne] by blast
next
  case False
  then have "5 \<le> int (length arr)" by simp
  then have g: "1 \<le> clamp_guess guess (int (length arr))"
      "clamp_guess guess (int (length arr)) \<le> int (length arr) - 3"
    using clamp_guess_range by blast+
  have "binary_search_with_guess key arr guess = guess_search key arr (clamp_guess guess (int (length arr)))"
    using hi lo False by (simp add: binary_search_with_guess_def Let_def)
  moreover have "arr ! 0 \<le> key" using lo by simp
  ultimately show ?thesis using guess_search_bracket[OF g] by simp
qed


lemma np_interp_bracket:
  assumes ne: "xp \<noteq> []" and len: "length fp = length xp"
  shows "(x > last xp \<longrightarrow> np_interp x xp fp = Inr (last fp))
     \<and> (\<not> x > last xp \<and> x < xp ! 0 \<longrightarrow> np_interp x xp fp = Inr (fp ! 0))
     \<and> (\<not> x > last xp \<and> \<not> x < xp ! 0 \<longrightarrow>
          (\<exists>j<length xp. xp ! j \<le> x \<and> (j + 1 < length xp \<longrightarrow> x < xp ! (j + 1))
             \<and> np_interp x xp fp =
                 Inr (if j + 1 = length xp then fp ! j
                      else (fp ! (j + 1) - fp ! j) / (xp ! (j + 1) - xp ! j) * (x - xp ! j) + fp ! j)))"
proof (intro conjI impI)
  have l: "last xp = xp ! nat (int (length xp) - 1)"
    using ne by (simp add: last_conv_nth nat_diff_distrib')
  have pos: "0 < length xp" using ne by simp
  {
    assume "x > last xp"
    then have "binary_search_with_guess x xp 0 = int (length xp)"
      using l by (simp add: binary_search_with_guess_def Let_def)
    then show "np_interp x xp fp = Inr (last fp)"
      using ne len pos by (simp add: np_interp_def Let_def)
  }
  {
    assume a: "\<not> x > last xp \<and> x < xp ! 0"
    then have "binary_search_with_guess x xp 0 = - 1"
      using l by (simp add: binary_search_with_guess_def Let_def)
    then show "np_interp x xp fp = Inr (fp ! 0)"
      using ne len by (simp add: np_interp_def Let_def)
  }
  {
    assume a: "\<not> x > last xp \<and> \<not> x < xp ! 0"
    then have hi: "\<not> x > xp ! nat (int (length xp) - 1)" and lo: "\<not> x < xp ! 0"
      using l by simp_all
    from search_bracket[OF ne hi lo, of 0]
    obtain j where j: "binary_search_with_guess x xp 0 = int j" "j < length xp" "xp ! j \<le> x"
        "j + 1 < length xp \<longrightarrow> x < xp ! (j + 1)"
      by blast
    have "np_interp x xp fp =
                 Inr (if j + 1 = length xp then fp ! j
                      else (fp ! (j + 1) - fp ! j) / (xp ! (j + 1) - xp ! j) * (x - xp ! j) + fp ! j)"
    proof (cases "j + 1 = length xp")
      case True
      then have "int j = int (length xp) - 1" by simp
      then show ?thesis using ne len j(1) True by (simp add: np_interp_def Let_def)
    next
      case False
      then have "int j \<noteq> int (length xp) - 1" "int j \<noteq> int (length xp)" "int j \<noteq> - 1"
        using j(2) by simp_all
      moreover have "nat (int j + 1) = j + 1" by simp
      ultimately show ?thesis using ne len j(1) False by (simp add: np_interp_def Let_def)
    qed
    then show "\<exists>j<length xp. xp ! j \<le> x \<and> (j + 1 < length xp \<longrightarrow> x < xp ! (j + 1))
             \<and> np_interp x xp fp =
                 Inr (if j + 1 = length xp then fp ! j
                      else (fp ! (j + 1) - fp ! j) / (xp ! (j + 1) - xp ! j) * (x - xp ! j) + fp ! j)"
      using j(2,3,4) by blast
  }
qed

lemma sorted_nth_le_last: "sorted xs \<Longrightarrow> k < length xs \<Longrightarrow> xs ! k \<le> xs ! (length xs - 1)"
  by (rule sorted_nth_mono) auto

lemma np_interp_sorted:
  assumes srt: "sorted xp" and ne: "xp \<noteq> []" and len: "length fp = length xp"
  shows "(x < xp ! 0 \<longrightarrow> np_interp x xp fp = Inr (fp ! 0))
     \<and> (last xp \<le> x \<longrightarrow> np_interp x xp fp = Inr (last fp))
     \<and> (\<forall>j. j + 1 < length xp \<and> xp ! j \<le> x \<and> x < xp ! (j + 1) \<longrightarrow>
           np_interp x xp fp =
             Inr (fp ! j + (fp ! (j + 1) - fp ! j) / (xp ! (j + 1) - xp ! j) * (x - xp ! j)))"
proof (intro conjI impI allI)
  note br = np_interp_bracket[OF ne len, of x]
  have fne: "fp \<noteq> []" using ne len by auto
  have lst: "last xp = xp ! (length xp - 1)" "last fp = fp ! (length xp - 1)"
    using ne fne len last_conv_nth[of xp] last_conv_nth[of fp] by simp_all
  have mono: "\<And>a b. a \<le> b \<Longrightarrow> b < length xp \<Longrightarrow> xp ! a \<le> xp ! b"
    using srt by (rule sorted_nth_mono)
  have tolast: "\<And>k. k < length xp \<Longrightarrow> xp ! k \<le> last xp"
    using sorted_nth_le_last[OF srt] lst(1) by simp
  have first_last: "xp ! 0 \<le> last xp" using tolast[of 0] ne by simp
  {
    assume "x < xp ! 0"
    then show "np_interp x xp fp = Inr (fp ! 0)" using br first_last by simp
  }
  {
    assume a: "last xp \<le> x"
    show "np_interp x xp fp = Inr (last fp)"
    proof (cases "x > last xp")
      case True
      then show ?thesis using br by simp
    next
      case False
      then have eq: "x = last xp" using a by simp
      then have "\<not> x < xp ! 0" using first_last by simp
      then obtain j where j: "j < length xp" "xp ! j \<le> x" "j + 1 < length xp \<longrightarrow> x < xp ! (j + 1)"
          "np_interp x xp fp =
                 Inr (if j + 1 = length xp then fp ! j
                      else (fp ! (j + 1) - fp ! j) / (xp ! (j + 1) - xp ! j) * (x - xp ! j) + fp ! j)"
        using br False by blast
      have "j + 1 = length xp"
      proof (rule ccontr)
        assume "j + 1 \<noteq> length xp"
        then have jl: "j + 1 < length xp" using j(1) by simp
        then have "x < xp ! (j + 1)" using j(3) by simp
        moreover have "xp ! (j + 1) \<le> last xp" using tolast[OF jl] .
        ultimately show False using eq by simp
      qed
      then have "j = length xp - 1" by simp
      then show ?thesis using j(4) lst(2) \<open>j + 1 = length xp\<close> by simp
    qed
  }
  {
    fix j assume a: "j + 1 < length xp \<and> xp ! j \<le> x \<and> x < xp ! (j + 1)"
    have "xp ! (j + 1) \<le> last xp" using tolast[of "j + 1"] a by simp
    then have nhi: "\<not> x > last xp" using a by simp
    have "xp ! 0 \<le> xp ! j" by (rule mono) (use a in simp_all)
    then have nlo: "\<not> x < xp ! 0" using a by simp
    obtain k where k: "k < length xp" "xp ! k \<le> x" "k + 1 < length xp \<longrightarrow> x < xp ! (k + 1)"
          "np_interp x xp fp =
                 Inr (if k + 1 = length xp then fp ! k
                      else (fp ! (k + 1) - fp ! k) / (xp ! (k + 1) - xp ! k) * (x - xp ! k) + fp ! k)"
      using br nhi nlo by blast
    have "k = j"
    proof (rule ccontr)
      assume "k \<noteq> j"
      then consider "k < j" | "j < k" by arith
      then show False
      proof cases
        case 1
        then have "k + 1 < length xp" using a by simp
        then have "x < xp ! (k + 1)" using k(3) by simp
        moreover have "xp ! (k + 1) \<le> xp ! j" by (rule mono) (use 1 a in simp_all)
        ultimately show False using a by simp
      next
        case 2
        have "xp ! (j + 1) \<le> xp ! k" by (rule mono) (use 2 k(1) in simp_all)
        then show False using a k(2) by simp
      qed
    qed
    then show "np_interp x xp fp =
             Inr (fp ! j + (fp ! (j + 1) - fp ! j) / (xp ! (j + 1) - xp ! j) * (x - xp ! j))"
      using k(4) a by simp
  }
qed

text \<open>On a table that is not sorted the value is the one of numpy's bisection: here the
  segment found is the one from \<open>6\<close> to \<open>10\<close>.\<close>

lemma np_interp_unsorted_example:
  "np_interp 7 [0, 1, 2, 3, 9, 5, 6, 10] [0, 1, 2, 3, 4, 5, 6, 7] = Inr (25 / 4)"
  by (simp add: np_interp_def binary_search_with_guess_def clamp_guess_def guess_search_def
      bisect.simps Let_def)

section \<open>From the Gaussian to the raw scale\<close>

lemma interp2_line:
  "x0 < x1 \<Longrightarrow> x0 \<le> x \<Longrightarrow> x \<le> x1 \<Longrightarrow> interp2 x x0 x1 f0 f1 = f0 + (f1 - f0) / (x1 - x0) * (x - x0)"
  by (auto simp add: interp2_def)

lemma Y2Z_loop_result:
  "\<forall>i \<in> set is. i < length Z \<Longrightarrow>
   \<exists>Z'. Y2Z_loop y zamin yamin zpmin ypmin zpmax ypmax zamax yamax is Z = Inr Z'
      \<and> length Z' = length Z
      \<and> (\<forall>i<length Z. Z' ! i =
            (if i \<in> set is \<and> y ! i \<le> ypmin then interp2 (y ! i) yamin ypmin zamin zpmin
             else if i \<in> set is \<and> y ! i \<ge> ypmax then interp2 (y ! i) ypmax yamax zpmax zamax
             else Z ! i))"
proof (induction "is" arbitrary: Z)
  case Nil
  then show ?case by simp
next
  case (Cons a "is")
  let ?Z1 = "if y ! a \<le> ypmin then Z[a := interp2 (y ! a) yamin ypmin zamin zpmin]
             else if y ! a \<ge> ypmax then Z[a := interp2 (y ! a) ypmax yamax zpmax zamax] else Z"
  have step: "Y2Z_loop y zamin yamin zpmin ypmin zpmax ypmax zamax yamax (a # is) Z
      = Y2Z_loop y zamin yamin zpmin ypmin zpmax ypmax zamax yamax is ?Z1"
    by (simp add: np_interp_two)
  have l1: "length ?Z1 = length Z" by simp
  have a: "a < length Z" using Cons.prems by simp
  have "\<forall>i \<in> set is. i < length ?Z1" using Cons.prems by simp
  from Cons.IH[OF this]
  obtain Z' where Z': "Y2Z_loop y zamin yamin zpmin ypmin zpmax ypmax zamax yamax is ?Z1 = Inr Z'"
      "length Z' = length ?Z1"
      "\<forall>i<length ?Z1. Z' ! i =
            (if i \<in> set is \<and> y ! i \<le> ypmin then interp2 (y ! i) yamin ypmin zamin zpmin
             else if i \<in> set is \<and> y ! i \<ge> ypmax then interp2 (y ! i) ypmax yamax zpmax zamax
             else ?Z1 ! i)"
    by blast
  have "\<forall>i<length Z. Z' ! i =
            (if i \<in> set (a # is) \<and> y ! i \<le> ypmin then interp2 (y ! i) yamin ypmin zamin zpmin
             else if i \<in> set (a # is) \<and> y ! i \<ge> ypmax then interp2 (y ! i) ypmax yamax zpmax zamax
             else Z ! i)"
  proof (intro allI impI)
    fix i assume i: "i < length Z"
    then have "Z' ! i =
            (if i \<in> set is \<and> y ! i \<le> ypmin then interp2 (y ! i) yamin ypmin zamin zpmin
             else if i \<in> set is \<and> y ! i \<ge> ypmax then interp2 (y ! i) ypmax yamax zpmax zamax
             else ?Z1 ! i)" using Z'(3) l1 by simp
    then show "Z' ! i =
            (if i \<in> set (a # is) \<and> y ! i \<le> ypmin then interp2 (y ! i) yamin ypmin zamin zpmin
             else if i \<in> set (a # is) \<and> y ! i \<ge> ypmax then interp2 (y ! i) ypmax yamax zpmax zamax
             else Z ! i)"
      using i a by (cases "i = a") auto
  qed
  then show ?case using step Z'(1,2) l1 by simp
qed

lemma c_int_wrap_le: "0 \<le> x \<Longrightarrow> c_int_wrap x \<le> x"
proof -
  assume "0 \<le> x"
  then have "(x + 2 ^ 31) mod 2 ^ 32 \<le> x + 2 ^ 31" by (intro zmod_le_nonneg_dividend) simp
  then show ?thesis by (simp add: c_int_wrap_def)
qed

lemma expand_loop_rows:
  "expand_loop PCI H r ps Z = Inr Z' \<Longrightarrow> \<forall>p \<in> set ps. p < length (rows H)"
  by (induction ps arbitrary: Z) (auto split: if_splits)

lemma Y2Z_short:
  "length PCI < 2 \<Longrightarrow> Y2Z y PCI zamin yamin zpmin ypmin zpmax ypmax zamax yamax r = Inl AssertionError"
proof -
  assume "length PCI < 2"
  then consider "length PCI = 0" | "length PCI = 1" by arith
  then show ?thesis
    by cases (simp_all add: Y2Z_def recurrentH_def c_int_wrap_def c_int_range_def)
qed

lemma Y2Z_result:
  assumes "2 \<le> length PCI" "length PCI < 2 ^ 31"
  shows "\<exists>H E Z. recurrentH y (int (length PCI) - 1) = Inr H \<and> expand_anamor PCI H r = Inr E
      \<and> length E = length y
      \<and> Y2Z y PCI zamin yamin zpmin ypmin zpmax ypmax zamax yamax r = Inr Z \<and> length Z = length y
      \<and> (\<forall>i<length y. Z ! i =
            (if y ! i \<le> ypmin then interp2 (y ! i) yamin ypmin zamin zpmin
             else if y ! i \<ge> ypmax then interp2 (y ! i) ypmax yamax zpmax zamax
             else E ! i))"
proof -
  let ?K = "int (length PCI) - 1"
  have K: "1 \<le> ?K" "?K < 2 ^ 31 - 1" using assms by simp_all
  have "c_int_range ?K" using K by (simp add: c_int_range_def)
  then have w: "c_int_wrap ?K = ?K" by (rule c_int_wrap_id)
  obtain H where H: "recurrentH y ?K = Inr H" "ncols H = length y" "length (rows H) = nat ?K + 1"
      "\<forall>k. k \<le> nat ?K \<longrightarrow> length (rows H ! k) = length y"
    using recurrentH_rows[OF K, of y] by blast
  have wf: "wf_matrix H" using H(2,3,4) by (simp add: wf_matrix_def list_all_length)
  have l: "length PCI = nat ?K + 1" using assms by simp
  obtain E where E: "expand_anamor PCI H r = Inr E" "length E = ncols H"
    using expand_anamor_sum[OF l H(3) wf, of r] by blast
  have "\<forall>i \<in> set [0..<length y]. i < length E" using E(2) H(2) by simp
  from Y2Z_loop_result[OF this, of y zamin yamin zpmin ypmin zpmax ypmax zamax yamax]
  obtain Z where Z: "Y2Z_loop y zamin yamin zpmin ypmin zpmax ypmax zamax yamax [0..<length y] E = Inr Z"
      "length Z = length E"
      "\<forall>i<length E. Z ! i =
            (if i \<in> set [0..<length y] \<and> y ! i \<le> ypmin then interp2 (y ! i) yamin ypmin zamin zpmin
             else if i \<in> set [0..<length y] \<and> y ! i \<ge> ypmax then interp2 (y ! i) ypmax yamax zpmax zamax
             else E ! i)"
    by blast
  have r: "Y2Z y PCI zamin yamin zpmin ypmin zpmax ypmax zamax yamax r = Inr Z"
    using H(1) E(1) Z(1) by (simp add: Y2Z_def w)
  have v: "\<forall>i<length y. Z ! i =
            (if y ! i \<le> ypmin then interp2 (y ! i) yamin ypmin zamin zpmin
             else if y ! i \<ge> ypmax then interp2 (y ! i) ypmax yamax zpmax zamax
             else E ! i)"
    using Z(3) E(2) H(2) by simp
  show ?thesis using H(1) E r Z(2) H(2) v by auto
qed

lemma Y2Z_returns:
  assumes "Y2Z y PCI zamin yamin zpmin ypmin zpmax ypmax zamax yamax r = Inr Z"
  shows "2 \<le> length PCI \<and> length PCI < 2 ^ 31"
proof -
  let ?K = "c_int_wrap (int (length PCI) - 1)"
  obtain H E where H: "recurrentH y ?K = Inr H" and E: "expand_anamor PCI H r = Inr E"
    using assms by (auto simp add: Y2Z_def and_then_Inr_iff)
  have K: "1 \<le> ?K" "?K < 2 ^ 31 - 1" using recurrentH_returns[OF H] by simp_all
  obtain H' where "recurrentH y ?K = Inr H'" "length (rows H') = nat ?K + 1"
    using recurrentH_rows[OF K, of y] by blast
  then have rows: "length (rows H) = nat ?K + 1" using H by simp
  obtain c cs where PCI: "PCI = c # cs" using E by (cases PCI) (auto simp add: expand_anamor_def)
  have "expand_loop PCI H r [1..<length PCI] (replicate (ncols H) c) = Inr E"
    using E PCI by (simp add: expand_anamor_def)
  then have bound: "\<forall>p \<in> set [1..<length PCI]. p < nat ?K + 1"
    using expand_loop_rows rows by metis
  have two: "2 \<le> length PCI"
  proof (rule ccontr)
    assume "\<not> 2 \<le> length PCI"
    then have "length PCI = 1" using PCI by (cases cs) simp_all
    then have "?K = 0" by (simp add: c_int_wrap_def)
    then show False using K(1) by simp
  qed
  then have "1 \<le> length PCI - 1 \<and> length PCI - 1 < length PCI" by arith
  then have "length PCI - 1 \<in> set [1..<length PCI]" by simp
  then have "length PCI - 1 < nat ?K + 1" using bound by blast
  then have ge: "int (length PCI) - 1 \<le> ?K" using two by linarith
  have "0 \<le> int (length PCI) - 1" using two by linarith
  then have "?K \<le> int (length PCI) - 1" by (rule c_int_wrap_le)
  then have "?K = int (length PCI) - 1" using ge by simp
  then have "int (length PCI) < 2 ^ 31" using K(2) by simp
  then have "length PCI < 2 ^ 31" by (metis of_nat_less_iff of_nat_numeral of_nat_power)
  then show ?thesis using two by simp
qed

text \<open>
  Claim C5, as amended. A call of \<^verbatim>\<open>Y2Z\<close> with a coefficient vector of at least two entries
  (and fewer than \<open>2^31\<close>, so that \<open>K\<close> and \<open>K + 1\<close> fit the C \<^verbatim>\<open>int\<close> of \<^verbatim>\<open>recurrentH\<close>)
  computes \<open>E = expand_anamor(PCI, recurrentH(y, K), r)\<close> with \<open>K = len(PCI) - 1\<close> and returns
  a vector \<open>Z\<close> of the length of \<open>y\<close>: where \<open>y[i] \<le> ypmin\<close>, \<open>Z[i]\<close> is \<^verbatim>\<open>np.interp\<close> through
  \<open>(yamin, zamin)\<close> and \<open>(ypmin, zpmin)\<close>, which is the line through the two points for
  \<open>yamin \<le> y[i]\<close>; where \<open>y[i] \<ge> ypmax\<close> and \<open>y[i] > ypmin\<close>, \<open>Z[i]\<close> is \<^verbatim>\<open>np.interp\<close> through
  \<open>(ypmax, zpmax)\<close> and \<open>(yamax, zamax)\<close>, the line for \<open>y[i] \<le> yamax\<close>; where
  \<open>ypmin < y[i] < ypmax\<close>, \<open>Z[i]\<close> is \<open>E[i]\<close>. A shorter coefficient vector fails the
  assertion of \<^verbatim>\<open>recurrentH\<close>, and the function returns a vector for no other coefficient
  vector: the three rules hold of every vector it returns.
\<close>

theorem Y2Z_piecewise:
  "(length PCI < 2 \<longrightarrow>
      Y2Z y PCI zamin yamin zpmin ypmin zpmax ypmax zamax yamax r = Inl AssertionError)
   \<and> (2 \<le> length PCI \<and> length PCI < 2 ^ 31 \<longrightarrow>
      (\<exists>H E Z. recurrentH y (int (length PCI) - 1) = Inr H \<and> expand_anamor PCI H r = Inr E
         \<and> Y2Z y PCI zamin yamin zpmin ypmin zpmax ypmax zamax yamax r = Inr Z
         \<and> length Z = length y
         \<and> (\<forall>i<length y.
              (y ! i \<le> ypmin \<longrightarrow>
                 np_interp (y ! i) [yamin, ypmin] [zamin, zpmin] = Inr (Z ! i)
                 \<and> (yamin < ypmin \<and> yamin \<le> y ! i \<longrightarrow>
                      Z ! i = zamin + (zpmin - zamin) / (ypmin - yamin) * (y ! i - yamin)))
            \<and> (ypmin < y ! i \<and> ypmax \<le> y ! i \<longrightarrow>
                 np_interp (y ! i) [ypmax, yamax] [zpmax, zamax] = Inr (Z ! i)
                 \<and> (ypmax < yamax \<and> y ! i \<le> yamax \<longrightarrow>
                      Z ! i = zpmax + (zamax - zpmax) / (yamax - ypmax) * (y ! i - ypmax)))
            \<and> (ypmin < y ! i \<and> y ! i < ypmax \<longrightarrow> Z ! i = E ! i))))
   \<and> (\<forall>Z. Y2Z y PCI zamin yamin zpmin ypmin zpmax ypmax zamax yamax r = Inr Z \<longrightarrow>
          2 \<le> length PCI \<and> length PCI < 2 ^ 31)"
proof (intro conjI impI allI)
  assume "length PCI < 2"
  then show "Y2Z y PCI zamin yamin zpmin ypmin zpmax ypmax zamax yamax r = Inl AssertionError"
    by (rule Y2Z_short)
next
  assume "2 \<le> length PCI \<and> length PCI < 2 ^ 31"
  then have "2 \<le> length PCI" "length PCI < 2 ^ 31" by simp_all
  from Y2Z_result[OF this, of y r zamin yamin zpmin ypmin zpmax ypmax zamax yamax]
  obtain H E Z where r: "recurrentH y (int (length PCI) - 1) = Inr H" "expand_anamor PCI H r = Inr E"
      "Y2Z y PCI zamin yamin zpmin ypmin zpmax ypmax zamax yamax r = Inr Z" "length Z = length y"
    and v: "\<forall>i<length y. Z ! i =
            (if y ! i \<le> ypmin then interp2 (y ! i) yamin ypmin zamin zpmin
             else if y ! i \<ge> ypmax then interp2 (y ! i) ypmax yamax zpmax zamax
             else E ! i)"
    by blast
  have "\<forall>i<length y.
              (y ! i \<le> ypmin \<longrightarrow>
                 np_interp (y ! i) [yamin, ypmin] [zamin, zpmin] = Inr (Z ! i)
                 \<and> (yamin < ypmin \<and> yamin \<le> y ! i \<longrightarrow>
                      Z ! i = zamin + (zpmin - zamin) / (ypmin - yamin) * (y ! i - yamin)))
            \<and> (ypmin < y ! i \<and> ypmax \<le> y ! i \<longrightarrow>
                 np_interp (y ! i) [ypmax, yamax] [zpmax, zamax] = Inr (Z ! i)
                 \<and> (ypmax < yamax \<and> y ! i \<le> yamax \<longrightarrow>
                      Z ! i = zpmax + (zamax - zpmax) / (yamax - ypmax) * (y ! i - ypmax)))
            \<and> (ypmin < y ! i \<and> y ! i < ypmax \<longrightarrow> Z ! i = E ! i)"
  proof (intro allI impI)
    fix i assume "i < length y"
    then have zi: "Z ! i =
            (if y ! i \<le> ypmin then interp2 (y ! i) yamin ypmin zamin zpmin
             else if y ! i \<ge> ypmax then interp2 (y ! i) ypmax yamax zpmax zamax
             else E ! i)" using v by blast
    show "(y ! i \<le> ypmin \<longrightarrow>
                 np_interp (y ! i) [yamin, ypmin] [zamin, zpmin] = Inr (Z ! i)
                 \<and> (yamin < ypmin \<and> yamin \<le> y ! i \<longrightarrow>
                      Z ! i = zamin + (zpmin - zamin) / (ypmin - yamin) * (y ! i - yamin)))
            \<and> (ypmin < y ! i \<and> ypmax \<le> y ! i \<longrightarrow>
                 np_interp (y ! i) [ypmax, yamax] [zpmax, zamax] = Inr (Z ! i)
                 \<and> (ypmax < yamax \<and> y ! i \<le> yamax \<longrightarrow>
                      Z ! i = zpmax + (zamax - zpmax) / (yamax - ypmax) * (y ! i - ypmax)))
            \<and> (ypmin < y ! i \<and> y ! i < ypmax \<longrightarrow> Z ! i = E ! i)"
      using zi by (simp add: np_interp_two interp2_line)
  qed
  then show "\<exists>H E Z. recurrentH y (int (length PCI) - 1) = Inr H \<and> expand_anamor PCI H r = Inr E
         \<and> Y2Z y PCI zamin yamin zpmin ypmin zpmax ypmax zamax yamax r = Inr Z
         \<and> length Z = length y
         \<and> (\<forall>i<length y.
              (y ! i \<le> ypmin \<longrightarrow>
                 np_interp (y ! i) [yamin, ypmin] [zamin, zpmin] = Inr (Z ! i)
                 \<and> (yamin < ypmin \<and> yamin \<le> y ! i \<longrightarrow>
                      Z ! i = zamin + (zpmin - zamin) / (ypmin - yamin) * (y ! i - yamin)))
            \<and> (ypmin < y ! i \<and> ypmax \<le> y ! i \<longrightarrow>
                 np_interp (y ! i) [ypmax, yamax] [zpmax, zamax] = Inr (Z ! i)
                 \<and> (ypmax < yamax \<and> y ! i \<le> yamax \<longrightarrow>
                      Z ! i = zpmax + (zamax - zpmax) / (yamax - ypmax) * (y ! i - ypmax)))
            \<and> (ypmin < y ! i \<and> y ! i < ypmax \<longrightarrow> Z ! i = E ! i))"
    using r by blast
next
  fix Z assume "Y2Z y PCI zamin yamin zpmin ypmin zpmax ypmax zamax yamax r = Inr Z"
  then show "2 \<le> length PCI" and "length PCI < 2 ^ 31"
    using Y2Z_returns by blast+
qed

text \<open>
  Claim C5 as stated gives the upper rule to every element with \<open>y[i] \<ge> ypmax\<close>. The
  lower test is made first: with \<open>ypmax = -1 < ypmin = 1\<close>, the element \<open>y[0] = 0\<close> is at
  or above \<open>ypmax\<close> and gets the lower interpolation \<open>50/3\<close>, not the upper one \<open>100/3\<close>.
\<close>

theorem Y2Z_upper_rule_counterexample:
  "(0 :: real) \<ge> - 1
   \<and> Y2Z [0] [7, 1] 10 (- 2) 20 1 30 (- 1) 40 2 1 = Inr [50 / 3]
   \<and> np_interp 0 [- 1, 2] [30, 40] = Inr (100 / 3)"
  by (simp add: Y2Z_def recurrentH_def c_int_wrap_def c_int_range_def expand_anamor_def
      np_interp_two interp2_def)


theorem Y2Z_piecewise_witness:
  "2 \<le> length [7, 1 :: real] \<and> length [7, 1 :: real] < 2 ^ 31
   \<and> Y2Z [- 5, - 3 / 2, 0, 3 / 2, 5] [7, 1] 10 (- 2) 20 (- 1) 30 1 40 2 1
       = Inr [10, 15, 7, 35, 40]
   \<and> Y2Z [0] [7] 10 (- 2) 20 (- 1) 30 1 40 2 1 = Inl AssertionError"
proof -
  have h: "2 \<le> length [7, 1 :: real] \<and> length [7, 1 :: real] < 2 ^ 31" by simp
  have s: "length [7 :: real] < 2" by simp
  have ev: "Y2Z [- 5, - 3 / 2, 0, 3 / 2, 5] [7, 1] 10 (- 2) 20 (- 1) 30 1 40 2 1
       = Inr [10, 15, 7, 35, 40]"
    by (simp add: Y2Z_def recurrentH_def c_int_wrap_def c_int_range_def expand_anamor_def
        np_interp_two interp2_def eval_nat_numeral)
  have short: "Y2Z [0] [7] 10 (- 2) 20 (- 1) 30 1 40 2 1 = Inl AssertionError"
    using Y2Z_piecewise[of "[7]" "[0]" 10 "- 2" 20 "- 1" 30 1 40 2 1] s by blast
  have "\<exists>Z. Y2Z [- 5, - 3 / 2, 0, 3 / 2, 5] [7, 1] 10 (- 2) 20 (- 1) 30 1 40 2 1 = Inr Z
      \<and> length Z = length [- 5, - 3 / 2, 0, 3 / 2, 5 :: real]"
    using Y2Z_piecewise[of "[7, 1]" "[- 5, - 3 / 2, 0, 3 / 2, 5]" 10 "- 2" 20 "- 1" 30 1 40 2 1] h by blast
  then show ?thesis using h ev short by simp
qed

text \<open>
  Claim C9, as amended. With \<open>yamin < ypmin\<close>, \<open>ypmax < yamax\<close> and \<open>ypmin \<le> yamax\<close>, every
  vector that \<^verbatim>\<open>Y2Z\<close> returns has \<open>zamin\<close> at each element with \<open>y[i] < yamin\<close> and \<open>zamax\<close>
  at each element with \<open>y[i] > yamax\<close>; a vector is returned whenever the coefficient
  vector has at least two entries and fewer than \<open>2^31\<close> (so that \<open>K\<close> and \<open>K + 1\<close> fit the C
  \<^verbatim>\<open>int\<close> of \<^verbatim>\<open>recurrentH\<close>).
\<close>

theorem Y2Z_clamps:
  assumes "yamin < ypmin" "ypmax < yamax" "ypmin \<le> yamax"
  shows "(\<forall>Z. Y2Z y PCI zamin yamin zpmin ypmin zpmax ypmax zamax yamax r = Inr Z \<longrightarrow>
            length Z = length y
            \<and> (\<forall>i<length y. (y ! i < yamin \<longrightarrow> Z ! i = zamin) \<and> (y ! i > yamax \<longrightarrow> Z ! i = zamax)))
       \<and> (2 \<le> length PCI \<and> length PCI < 2 ^ 31 \<longrightarrow>
            (\<exists>Z. Y2Z y PCI zamin yamin zpmin ypmin zpmax ypmax zamax yamax r = Inr Z))"
proof (cases "2 \<le> length PCI \<and> length PCI < 2 ^ 31")
  case False
  then have "\<forall>Z. Y2Z y PCI zamin yamin zpmin ypmin zpmax ypmax zamax yamax r \<noteq> Inr Z"
    using Y2Z_returns by blast
  then show ?thesis using False by simp
next
  case True
  then have "2 \<le> length PCI" "length PCI < 2 ^ 31" by simp_all
  from Y2Z_result[OF this, of y r zamin yamin zpmin ypmin zpmax ypmax zamax yamax]
  obtain H E Z where r: "Y2Z y PCI zamin yamin zpmin ypmin zpmax ypmax zamax yamax r = Inr Z"
      "length Z = length y"
    and v: "\<forall>i<length y. Z ! i =
            (if y ! i \<le> ypmin then interp2 (y ! i) yamin ypmin zamin zpmin
             else if y ! i \<ge> ypmax then interp2 (y ! i) ypmax yamax zpmax zamax
             else E ! i)"
    by blast
  have "\<forall>i<length y. (y ! i < yamin \<longrightarrow> Z ! i = zamin) \<and> (y ! i > yamax \<longrightarrow> Z ! i = zamax)"
  proof (intro allI impI)
    fix i assume "i < length y"
    then have zi: "Z ! i =
            (if y ! i \<le> ypmin then interp2 (y ! i) yamin ypmin zamin zpmin
             else if y ! i \<ge> ypmax then interp2 (y ! i) ypmax yamax zpmax zamax
             else E ! i)" using v by blast
    show "(y ! i < yamin \<longrightarrow> Z ! i = zamin) \<and> (y ! i > yamax \<longrightarrow> Z ! i = zamax)"
      using zi assms by (auto simp add: interp2_def)
  qed
  then show ?thesis using r by simp
qed

text \<open>
  Claim C9 as stated asks only \<open>yamin < ypmin\<close> and \<open>ypmax < yamax\<close>. With
  \<open>yamin = 0 < ypmin = 10\<close> and \<open>ypmax = 1 < yamax = 2\<close>, the element \<open>y[0] = 3\<close> is above
  \<open>yamax\<close> and at or below \<open>ypmin\<close>: it gets the lower interpolation \<open>3/10\<close>, not
  \<open>zamax = 3\<close>.
\<close>

theorem Y2Z_clamps_counterexample:
  "(0 :: real) < 10 \<and> (1 :: real) < 2 \<and> (3 :: real) > 2
   \<and> Y2Z [3] [0, 1] 0 0 1 10 2 1 3 2 1 = Inr [3 / 10] \<and> (3 / 10 :: real) \<noteq> 3"
  by (simp add: Y2Z_def recurrentH_def c_int_wrap_def c_int_range_def expand_anamor_def
      np_interp_two interp2_def)


theorem Y2Z_clamps_witness:
  "(- 2 :: real) < - 1 \<and> (1 :: real) < 2 \<and> (- 1 :: real) \<le> 2
   \<and> 2 \<le> length [7, 1 :: real] \<and> length [7, 1 :: real] < 2 ^ 31
   \<and> (\<exists>Z. Y2Z [- 5, 0, 5] [7, 1] 10 (- 2) 20 (- 1) 30 1 40 2 1 = Inr Z
          \<and> Z ! 0 = 10 \<and> Z ! 2 = 40)"
proof -
  have h: "(- 2 :: real) < - 1" "(1 :: real) < 2" "(- 1 :: real) \<le> 2" by simp_all
  have l: "2 \<le> length [7, 1 :: real] \<and> length [7, 1 :: real] < 2 ^ 31" by simp
  note t = Y2Z_clamps[OF h, where y = "[- 5, 0, 5]" and PCI = "[7, 1]" and zamin = 10
      and zpmin = 20 and zpmax = 30 and zamax = 40 and r = 1]
  from t l obtain Z where Z: "Y2Z [- 5, 0, 5] [7, 1] 10 (- 2) 20 (- 1) 30 1 40 2 1 = Inr Z"
    by blast
  with t have p: "\<forall>i<length [- 5, 0, 5 :: real].
      ([- 5, 0, 5 :: real] ! i < - 2 \<longrightarrow> Z ! i = 10) \<and> ([- 5, 0, 5 :: real] ! i > 2 \<longrightarrow> Z ! i = 40)"
    by blast
  have "Z ! 0 = 10" using p by auto
  moreover have "Z ! 2 = 40" using p by force
  ultimately show ?thesis using h l Z by blast
qed

section \<open>From the raw to the Gaussian scale\<close>

lemma np_interp_table:
  assumes r: "np_interp x xp fp = Inr w" and srt: "sorted xp"
  shows "(x < xp ! 0 \<longrightarrow> w = fp ! 0)
     \<and> (last xp \<le> x \<longrightarrow> w = last fp)
     \<and> (\<forall>j. j + 1 < length xp \<and> xp ! j \<le> x \<and> x < xp ! (j + 1) \<longrightarrow>
           w = fp ! j + (fp ! (j + 1) - fp ! j) / (xp ! (j + 1) - xp ! j) * (x - xp ! j))"
proof -
  have ne: "xp \<noteq> []" and len: "length fp = length xp"
    using r by (auto simp add: np_interp_def split: if_splits)
  from np_interp_sorted[OF srt ne len, of x] show ?thesis using r by simp
qed

lemma Z2Y_region_fires: "Z2Y_region x zamin zpmin zpmax zamax \<noteq> Untouched"
  by (simp add: Z2Y_region_def)

lemma Z2Y_value_cases:
  assumes "Z2Y_value x zm ym zamin yamin zpmin ypmin zpmax ypmax zamax yamax = Inr v"
  shows "\<exists>w. v = Some w
     \<and> (x \<le> zamin \<longrightarrow> w = yamin)
     \<and> (zamin < x \<and> zamax \<le> x \<longrightarrow> w = yamax)
     \<and> (zamin < x \<and> x < zamax \<and> x \<le> zpmin \<longrightarrow>
           np_interp x [zamin, zpmin] [yamin, ypmin] = Inr w
           \<and> w = yamin + (ypmin - yamin) / (zpmin - zamin) * (x - zamin))
     \<and> (zamin < x \<and> x < zamax \<and> zpmin < x \<and> zpmax \<le> x \<longrightarrow>
           np_interp x [zpmax, zamax] [ypmax, yamax] = Inr w
           \<and> w = ypmax + (yamax - ypmax) / (zamax - zpmax) * (x - zpmax))
     \<and> (zamin < x \<and> x < zamax \<and> zpmin < x \<and> x < zpmax \<longrightarrow> np_interp x zm ym = Inr w)"
proof -
  consider "x \<le> zamin" | "zamin < x" "zamax \<le> x" | "zamin < x" "x < zamax" "x \<le> zpmin"
    | "zamin < x" "x < zamax" "zpmin < x" "zpmax \<le> x" | "zamin < x" "x < zamax" "zpmin < x" "x < zpmax"
    by linarith
  then show ?thesis
  proof cases
    case 1
    then show ?thesis using assms by (auto simp add: Z2Y_value_def Z2Y_region_def)
  next
    case 2
    then show ?thesis using assms by (auto simp add: Z2Y_value_def Z2Y_region_def)
  next
    case 3
    then have "v = Some (interp2 x zamin zpmin yamin ypmin)"
      using assms by (auto simp add: Z2Y_value_def Z2Y_region_def np_interp_two)
    moreover have "interp2 x zamin zpmin yamin ypmin = yamin + (ypmin - yamin) / (zpmin - zamin) * (x - zamin)"
      using 3 by (auto simp add: interp2_def)
    ultimately show ?thesis using 3 by (simp add: np_interp_two)
  next
    case 4
    then have "v = Some (interp2 x zpmax zamax ypmax yamax)"
      using assms by (auto simp add: Z2Y_value_def Z2Y_region_def np_interp_two)
    moreover have "interp2 x zpmax zamax ypmax yamax = ypmax + (yamax - ypmax) / (zamax - zpmax) * (x - zpmax)"
      using 4 by (auto simp add: interp2_def)
    ultimately show ?thesis using 4 by (simp add: np_interp_two)
  next
    case 5
    then show ?thesis using assms
      by (cases "np_interp x zm ym") (auto simp add: Z2Y_value_def Z2Y_region_def)
  qed
qed

lemma Z2Y_value_defined:
  assumes "zm \<noteq> []" "length ym = length zm"
  shows "\<exists>v. Z2Y_value x zm ym zamin yamin zpmin ypmin zpmax ypmax zamax yamax = Inr v"
proof -
  obtain w where "np_interp x zm ym = Inr w" using np_interp_defined[OF assms] by blast
  then show ?thesis
    by (cases "Z2Y_region x zamin zpmin zpmax zamax") (simp_all add: Z2Y_value_def np_interp_two)
qed

lemma Z2Y_loop_result:
  "\<forall>i \<in> set is. i < length Y0 \<Longrightarrow>
   Z2Y_loop z zm ym zamin yamin zpmin ypmin zpmax ypmax zamax yamax is Y0 = Inr Y \<Longrightarrow>
   length Y = length Y0
   \<and> (\<forall>i<length Y0.
        (i \<in> set is \<longrightarrow>
           (\<exists>v. Z2Y_value (z ! i) zm ym zamin yamin zpmin ypmin zpmax ypmax zamax yamax = Inr v
               \<and> Y ! i = (case v of None \<Rightarrow> Y0 ! i | Some w \<Rightarrow> w)))
      \<and> (i \<notin> set is \<longrightarrow> Y ! i = Y0 ! i))"
proof (induction "is" arbitrary: Y0)
  case Nil
  then show ?case by simp
next
  case (Cons a "is")
  from Cons.prems(2) obtain v where v: "Z2Y_value (z ! a) zm ym zamin yamin zpmin ypmin zpmax ypmax zamax yamax = Inr v"
    and rest: "Z2Y_loop z zm ym zamin yamin zpmin ypmin zpmax ypmax zamax yamax is
         (case v of None \<Rightarrow> Y0 | Some w \<Rightarrow> Y0[a := w]) = Inr Y"
    by (auto simp add: and_then_Inr_iff)
  let ?Y1 = "case v of None \<Rightarrow> Y0 | Some w \<Rightarrow> Y0[a := w]"
  have l1: "length ?Y1 = length Y0" by (cases v) simp_all
  have a: "a < length Y0" using Cons.prems(1) by simp
  have "\<forall>i \<in> set is. i < length ?Y1" using Cons.prems(1) l1 by simp
  from Cons.IH[OF this rest]
  have IH: "length Y = length ?Y1"
     "\<forall>i<length ?Y1.
        (i \<in> set is \<longrightarrow>
           (\<exists>v. Z2Y_value (z ! i) zm ym zamin yamin zpmin ypmin zpmax ypmax zamax yamax = Inr v
               \<and> Y ! i = (case v of None \<Rightarrow> ?Y1 ! i | Some w \<Rightarrow> w)))
      \<and> (i \<notin> set is \<longrightarrow> Y ! i = ?Y1 ! i)"
    by blast+
  have "\<forall>i<length Y0.
        (i \<in> set (a # is) \<longrightarrow>
           (\<exists>v. Z2Y_value (z ! i) zm ym zamin yamin zpmin ypmin zpmax ypmax zamax yamax = Inr v
               \<and> Y ! i = (case v of None \<Rightarrow> Y0 ! i | Some w \<Rightarrow> w)))
      \<and> (i \<notin> set (a # is) \<longrightarrow> Y ! i = Y0 ! i)"
  proof (intro allI impI)
    fix i assume i: "i < length Y0"
    have y1: "?Y1 ! i = (if i = a then (case v of None \<Rightarrow> Y0 ! i | Some w \<Rightarrow> w) else Y0 ! i)"
      using i by (cases v) auto
    have h: "(i \<in> set is \<longrightarrow>
           (\<exists>v. Z2Y_value (z ! i) zm ym zamin yamin zpmin ypmin zpmax ypmax zamax yamax = Inr v
               \<and> Y ! i = (case v of None \<Rightarrow> ?Y1 ! i | Some w \<Rightarrow> w)))
      \<and> (i \<notin> set is \<longrightarrow> Y ! i = ?Y1 ! i)"
      using IH(2) i l1 by simp
    show "(i \<in> set (a # is) \<longrightarrow>
           (\<exists>v. Z2Y_value (z ! i) zm ym zamin yamin zpmin ypmin zpmax ypmax zamax yamax = Inr v
               \<and> Y ! i = (case v of None \<Rightarrow> Y0 ! i | Some w \<Rightarrow> w)))
      \<and> (i \<notin> set (a # is) \<longrightarrow> Y ! i = Y0 ! i)"
    proof (cases "i \<in> set is")
      case True
      then obtain u where u: "Z2Y_value (z ! i) zm ym zamin yamin zpmin ypmin zpmax ypmax zamax yamax = Inr u"
          "Y ! i = (case u of None \<Rightarrow> ?Y1 ! i | Some w \<Rightarrow> w)"
        using h by blast
      have "Y ! i = (case u of None \<Rightarrow> Y0 ! i | Some w \<Rightarrow> w)"
      proof (cases "i = a")
        case True
        then have "u = v" using u(1) v by simp
        then show ?thesis using u(2) y1 True by (cases v) simp_all
      next
        case False
        then show ?thesis using u(2) y1 by (cases u) simp_all
      qed
      then show ?thesis using u(1) True by auto
    next
      case False
      then have "Y ! i = ?Y1 ! i" using h by simp
      then show ?thesis using False y1 v by auto
    qed
  qed
  then show ?case using IH(1) l1 by simp
qed

lemma Z2Y_loop_defined:
  "\<forall>i \<in> set is. \<exists>v. Z2Y_value (z ! i) zm ym zamin yamin zpmin ypmin zpmax ypmax zamax yamax = Inr v \<Longrightarrow>
   \<exists>Y. Z2Y_loop z zm ym zamin yamin zpmin ypmin zpmax ypmax zamax yamax is Y0 = Inr Y"
proof (induction "is" arbitrary: Y0)
  case Nil
  then show ?case by simp
next
  case (Cons a "is")
  then obtain v where v: "Z2Y_value (z ! a) zm ym zamin yamin zpmin ypmin zpmax ypmax zamax yamax = Inr v"
    by auto
  have "\<forall>i \<in> set is. \<exists>v. Z2Y_value (z ! i) zm ym zamin yamin zpmin ypmin zpmax ypmax zamax yamax = Inr v"
    using Cons.prems by simp
  from Cons.IH[OF this] show ?case using v by simp
qed

lemma Z2Y_linear_elements:
  assumes r: "Z2Y_linear z zm ym zamin yamin zpmin ypmin zpmax ypmax zamax yamax = Inr Y"
  shows "length Y = length z
      \<and> (\<forall>i<length z.
           (z ! i \<le> zamin \<longrightarrow> Y ! i = yamin)
         \<and> (zamin < z ! i \<and> zamax \<le> z ! i \<longrightarrow> Y ! i = yamax)
         \<and> (zamin < z ! i \<and> z ! i < zamax \<and> z ! i \<le> zpmin \<longrightarrow>
               np_interp (z ! i) [zamin, zpmin] [yamin, ypmin] = Inr (Y ! i)
               \<and> Y ! i = yamin + (ypmin - yamin) / (zpmin - zamin) * (z ! i - zamin))
         \<and> (zamin < z ! i \<and> z ! i < zamax \<and> zpmin < z ! i \<and> zpmax \<le> z ! i \<longrightarrow>
               np_interp (z ! i) [zpmax, zamax] [ypmax, yamax] = Inr (Y ! i)
               \<and> Y ! i = ypmax + (yamax - ypmax) / (zamax - zpmax) * (z ! i - zpmax))
         \<and> (zamin < z ! i \<and> z ! i < zamax \<and> zpmin < z ! i \<and> z ! i < zpmax \<longrightarrow>
               np_interp (z ! i) zm ym = Inr (Y ! i))
         \<and> Z2Y_region (z ! i) zamin zpmin zpmax zamax \<noteq> Untouched)"
proof -
  have "\<forall>i \<in> set [0..<length z]. i < length (replicate (length z) (0::real))" by simp
  from Z2Y_loop_result[OF this r[unfolded Z2Y_linear_def]]
  have res: "length Y = length z"
    "\<forall>i<length z. \<exists>v. Z2Y_value (z ! i) zm ym zamin yamin zpmin ypmin zpmax ypmax zamax yamax = Inr v
               \<and> Y ! i = (case v of None \<Rightarrow> replicate (length z) 0 ! i | Some w \<Rightarrow> w)"
    by auto
  have "(\<forall>i<length z.
           (z ! i \<le> zamin \<longrightarrow> Y ! i = yamin)
         \<and> (zamin < z ! i \<and> zamax \<le> z ! i \<longrightarrow> Y ! i = yamax)
         \<and> (zamin < z ! i \<and> z ! i < zamax \<and> z ! i \<le> zpmin \<longrightarrow>
               np_interp (z ! i) [zamin, zpmin] [yamin, ypmin] = Inr (Y ! i)
               \<and> Y ! i = yamin + (ypmin - yamin) / (zpmin - zamin) * (z ! i - zamin))
         \<and> (zamin < z ! i \<and> z ! i < zamax \<and> zpmin < z ! i \<and> zpmax \<le> z ! i \<longrightarrow>
               np_interp (z ! i) [zpmax, zamax] [ypmax, yamax] = Inr (Y ! i)
               \<and> Y ! i = ypmax + (yamax - ypmax) / (zamax - zpmax) * (z ! i - zpmax))
         \<and> (zamin < z ! i \<and> z ! i < zamax \<and> zpmin < z ! i \<and> z ! i < zpmax \<longrightarrow>
               np_interp (z ! i) zm ym = Inr (Y ! i))
         \<and> Z2Y_region (z ! i) zamin zpmin zpmax zamax \<noteq> Untouched)"
  proof (intro allI impI)
  fix i assume i: "i < length z"
  then obtain v where v: "Z2Y_value (z ! i) zm ym zamin yamin zpmin ypmin zpmax ypmax zamax yamax = Inr v"
      "Y ! i = (case v of None \<Rightarrow> replicate (length z) 0 ! i | Some w \<Rightarrow> w)"
    using res(2) by blast
  from Z2Y_value_cases[OF v(1)] obtain w where w: "v = Some w"
     "z ! i \<le> zamin \<longrightarrow> w = yamin"
     "zamin < z ! i \<and> zamax \<le> z ! i \<longrightarrow> w = yamax"
     "zamin < z ! i \<and> z ! i < zamax \<and> z ! i \<le> zpmin \<longrightarrow>
           np_interp (z ! i) [zamin, zpmin] [yamin, ypmin] = Inr w
           \<and> w = yamin + (ypmin - yamin) / (zpmin - zamin) * (z ! i - zamin)"
     "zamin < z ! i \<and> z ! i < zamax \<and> zpmin < z ! i \<and> zpmax \<le> z ! i \<longrightarrow>
           np_interp (z ! i) [zpmax, zamax] [ypmax, yamax] = Inr w
           \<and> w = ypmax + (yamax - ypmax) / (zamax - zpmax) * (z ! i - zpmax)"
     "zamin < z ! i \<and> z ! i < zamax \<and> zpmin < z ! i \<and> z ! i < zpmax \<longrightarrow> np_interp (z ! i) zm ym = Inr w"
    by blast
  have yi: "Y ! i = w" using v(2) w(1) by simp
  show "(z ! i \<le> zamin \<longrightarrow> Y ! i = yamin)
         \<and> (zamin < z ! i \<and> zamax \<le> z ! i \<longrightarrow> Y ! i = yamax)
         \<and> (zamin < z ! i \<and> z ! i < zamax \<and> z ! i \<le> zpmin \<longrightarrow>
               np_interp (z ! i) [zamin, zpmin] [yamin, ypmin] = Inr (Y ! i)
               \<and> Y ! i = yamin + (ypmin - yamin) / (zpmin - zamin) * (z ! i - zamin))
         \<and> (zamin < z ! i \<and> z ! i < zamax \<and> zpmin < z ! i \<and> zpmax \<le> z ! i \<longrightarrow>
               np_interp (z ! i) [zpmax, zamax] [ypmax, yamax] = Inr (Y ! i)
               \<and> Y ! i = ypmax + (yamax - ypmax) / (zamax - zpmax) * (z ! i - zpmax))
         \<and> (zamin < z ! i \<and> z ! i < zamax \<and> zpmin < z ! i \<and> z ! i < zpmax \<longrightarrow>
               np_interp (z ! i) zm ym = Inr (Y ! i))
         \<and> Z2Y_region (z ! i) zamin zpmin zpmax zamax \<noteq> Untouched"
    unfolding yi using w(2-) Z2Y_region_fires by blast
  qed
  then show ?thesis using res(1) by blast
qed

lemma Z2Y_linear_defined:
  assumes "zm \<noteq> [] \<and> length ym = length zm"
  shows "\<exists>Y. Z2Y_linear z zm ym zamin yamin zpmin ypmin zpmax ypmax zamax yamax = Inr Y"
proof -
  have "\<forall>i \<in> set [0..<length z].
      \<exists>v. Z2Y_value (z ! i) zm ym zamin yamin zpmin ypmin zpmax ypmax zamax yamax = Inr v"
    using assms Z2Y_value_defined by blast
  from Z2Y_loop_defined[OF this]
  show ?thesis by (simp add: Z2Y_linear_def)
qed

text \<open>
  Claim C4. In every vector \<open>Y\<close> that \<^verbatim>\<open>Z2Y_linear\<close> returns, each \<open>Y[i]\<close> is given by the
  first rule that applies, in this order: \<open>z[i] \<le> zamin\<close> gives \<open>yamin\<close>; else
  \<open>z[i] \<ge> zamax\<close> gives \<open>yamax\<close>; else \<open>z[i] \<le> zpmin\<close> gives \<^verbatim>\<open>np.interp\<close> on the anchors
  \<open>(zamin, yamin)\<close>, \<open>(zpmin, ypmin)\<close>, which is the line through them; else \<open>z[i] \<ge> zpmax\<close>
  gives \<^verbatim>\<open>np.interp\<close> on \<open>(zpmax, ypmax)\<close>, \<open>(zamax, yamax)\<close>, again the line through them;
  else \<open>zpmin < z[i] < zpmax\<close> and \<open>Y[i]\<close> is \<^verbatim>\<open>np.interp\<close> on the table \<open>(zm, ym)\<close>. On a table
  with increasing \<open>zm\<close> that is the linear interpolation of the tabulated curve: the line
  through \<open>(zm[j], ym[j])\<close> and \<open>(zm[j+1], ym[j+1])\<close> for the segment with
  \<open>zm[j] \<le> z[i] < zm[j+1]\<close>, \<open>ym[0]\<close> below the table and the last \<open>ym\<close> from the last \<open>zm\<close> on.
  One of the five tests holds for every element (none is left untouched), and only the
  first one that holds assigns. A vector is returned whenever the table is not empty and
  \<open>zm\<close>, \<open>ym\<close> have the same length.
\<close>

theorem Z2Y_linear_regions:
  "(\<forall>Y. Z2Y_linear z zm ym zamin yamin zpmin ypmin zpmax ypmax zamax yamax = Inr Y \<longrightarrow>
      length Y = length z
      \<and> (\<forall>i<length z.
           (z ! i \<le> zamin \<longrightarrow> Y ! i = yamin)
         \<and> (zamin < z ! i \<and> zamax \<le> z ! i \<longrightarrow> Y ! i = yamax)
         \<and> (zamin < z ! i \<and> z ! i < zamax \<and> z ! i \<le> zpmin \<longrightarrow>
               np_interp (z ! i) [zamin, zpmin] [yamin, ypmin] = Inr (Y ! i)
               \<and> Y ! i = yamin + (ypmin - yamin) / (zpmin - zamin) * (z ! i - zamin))
         \<and> (zamin < z ! i \<and> z ! i < zamax \<and> zpmin < z ! i \<and> zpmax \<le> z ! i \<longrightarrow>
               np_interp (z ! i) [zpmax, zamax] [ypmax, yamax] = Inr (Y ! i)
               \<and> Y ! i = ypmax + (yamax - ypmax) / (zamax - zpmax) * (z ! i - zpmax))
         \<and> (zamin < z ! i \<and> z ! i < zamax \<and> zpmin < z ! i \<and> z ! i < zpmax \<longrightarrow>
               np_interp (z ! i) zm ym = Inr (Y ! i)
               \<and> (sorted zm \<longrightarrow>
                    (z ! i < zm ! 0 \<longrightarrow> Y ! i = ym ! 0)
                  \<and> (last zm \<le> z ! i \<longrightarrow> Y ! i = last ym)
                  \<and> (\<forall>j. j + 1 < length zm \<and> zm ! j \<le> z ! i \<and> z ! i < zm ! (j + 1) \<longrightarrow>
                        Y ! i = ym ! j
                          + (ym ! (j + 1) - ym ! j) / (zm ! (j + 1) - zm ! j) * (z ! i - zm ! j))))
         \<and> Z2Y_region (z ! i) zamin zpmin zpmax zamax \<noteq> Untouched))
   \<and> (zm \<noteq> [] \<and> length ym = length zm \<longrightarrow>
        (\<exists>Y. Z2Y_linear z zm ym zamin yamin zpmin ypmin zpmax ypmax zamax yamax = Inr Y))"
proof (rule conjI)
  show "zm \<noteq> [] \<and> length ym = length zm \<longrightarrow>
        (\<exists>Y. Z2Y_linear z zm ym zamin yamin zpmin ypmin zpmax ypmax zamax yamax = Inr Y)"
    using Z2Y_linear_defined by blast
next
  show "\<forall>Y. Z2Y_linear z zm ym zamin yamin zpmin ypmin zpmax ypmax zamax yamax = Inr Y \<longrightarrow>
      length Y = length z
      \<and> (\<forall>i<length z.
           (z ! i \<le> zamin \<longrightarrow> Y ! i = yamin)
         \<and> (zamin < z ! i \<and> zamax \<le> z ! i \<longrightarrow> Y ! i = yamax)
         \<and> (zamin < z ! i \<and> z ! i < zamax \<and> z ! i \<le> zpmin \<longrightarrow>
               np_interp (z ! i) [zamin, zpmin] [yamin, ypmin] = Inr (Y ! i)
               \<and> Y ! i = yamin + (ypmin - yamin) / (zpmin - zamin) * (z ! i - zamin))
         \<and> (zamin < z ! i \<and> z ! i < zamax \<and> zpmin < z ! i \<and> zpmax \<le> z ! i \<longrightarrow>
               np_interp (z ! i) [zpmax, zamax] [ypmax, yamax] = Inr (Y ! i)
               \<and> Y ! i = ypmax + (yamax - ypmax) / (zamax - zpmax) * (z ! i - zpmax))
         \<and> (zamin < z ! i \<and> z ! i < zamax \<and> zpmin < z ! i \<and> z ! i < zpmax \<longrightarrow>
               np_interp (z ! i) zm ym = Inr (Y ! i)
               \<and> (sorted zm \<longrightarrow>
                    (z ! i < zm ! 0 \<longrightarrow> Y ! i = ym ! 0)
                  \<and> (last zm \<le> z ! i \<longrightarrow> Y ! i = last ym)
                  \<and> (\<forall>j. j + 1 < length zm \<and> zm ! j \<le> z ! i \<and> z ! i < zm ! (j + 1) \<longrightarrow>
                        Y ! i = ym ! j
                          + (ym ! (j + 1) - ym ! j) / (zm ! (j + 1) - zm ! j) * (z ! i - zm ! j))))
         \<and> Z2Y_region (z ! i) zamin zpmin zpmax zamax \<noteq> Untouched)"
  proof (intro allI impI)
  fix Y assume r: "Z2Y_linear z zm ym zamin yamin zpmin ypmin zpmax ypmax zamax yamax = Inr Y"
  note e = Z2Y_linear_elements[OF r]
  have len: "length Y = length z" using e by blast
  have els: "\<forall>i<length z.
           (z ! i \<le> zamin \<longrightarrow> Y ! i = yamin)
         \<and> (zamin < z ! i \<and> zamax \<le> z ! i \<longrightarrow> Y ! i = yamax)
         \<and> (zamin < z ! i \<and> z ! i < zamax \<and> z ! i \<le> zpmin \<longrightarrow>
               np_interp (z ! i) [zamin, zpmin] [yamin, ypmin] = Inr (Y ! i)
               \<and> Y ! i = yamin + (ypmin - yamin) / (zpmin - zamin) * (z ! i - zamin))
         \<and> (zamin < z ! i \<and> z ! i < zamax \<and> zpmin < z ! i \<and> zpmax \<le> z ! i \<longrightarrow>
               np_interp (z ! i) [zpmax, zamax] [ypmax, yamax] = Inr (Y ! i)
               \<and> Y ! i = ypmax + (yamax - ypmax) / (zamax - zpmax) * (z ! i - zpmax))
         \<and> (zamin < z ! i \<and> z ! i < zamax \<and> zpmin < z ! i \<and> z ! i < zpmax \<longrightarrow>
               np_interp (z ! i) zm ym = Inr (Y ! i)
               \<and> (sorted zm \<longrightarrow>
                    (z ! i < zm ! 0 \<longrightarrow> Y ! i = ym ! 0)
                  \<and> (last zm \<le> z ! i \<longrightarrow> Y ! i = last ym)
                  \<and> (\<forall>j. j + 1 < length zm \<and> zm ! j \<le> z ! i \<and> z ! i < zm ! (j + 1) \<longrightarrow>
                        Y ! i = ym ! j
                          + (ym ! (j + 1) - ym ! j) / (zm ! (j + 1) - zm ! j) * (z ! i - zm ! j))))
         \<and> Z2Y_region (z ! i) zamin zpmin zpmax zamax \<noteq> Untouched"
  proof (intro allI impI)
  fix i
  assume i: "i < length z"
  have ei: "(z ! i \<le> zamin \<longrightarrow> Y ! i = yamin)
         \<and> (zamin < z ! i \<and> zamax \<le> z ! i \<longrightarrow> Y ! i = yamax)
         \<and> (zamin < z ! i \<and> z ! i < zamax \<and> z ! i \<le> zpmin \<longrightarrow>
               np_interp (z ! i) [zamin, zpmin] [yamin, ypmin] = Inr (Y ! i)
               \<and> Y ! i = yamin + (ypmin - yamin) / (zpmin - zamin) * (z ! i - zamin))
         \<and> (zamin < z ! i \<and> z ! i < zamax \<and> zpmin < z ! i \<and> zpmax \<le> z ! i \<longrightarrow>
               np_interp (z ! i) [zpmax, zamax] [ypmax, yamax] = Inr (Y ! i)
               \<and> Y ! i = ypmax + (yamax - ypmax) / (zamax - zpmax) * (z ! i - zpmax))
         \<and> (zamin < z ! i \<and> z ! i < zamax \<and> zpmin < z ! i \<and> z ! i < zpmax \<longrightarrow>
               np_interp (z ! i) zm ym = Inr (Y ! i))
         \<and> Z2Y_region (z ! i) zamin zpmin zpmax zamax \<noteq> Untouched"
    using e i by blast
  have tab: "zamin < z ! i \<and> z ! i < zamax \<and> zpmin < z ! i \<and> z ! i < zpmax \<longrightarrow>
      (sorted zm \<longrightarrow>
          (z ! i < zm ! 0 \<longrightarrow> Y ! i = ym ! 0)
        \<and> (last zm \<le> z ! i \<longrightarrow> Y ! i = last ym)
        \<and> (\<forall>j. j + 1 < length zm \<and> zm ! j \<le> z ! i \<and> z ! i < zm ! (j + 1) \<longrightarrow>
              Y ! i = ym ! j
                + (ym ! (j + 1) - ym ! j) / (zm ! (j + 1) - zm ! j) * (z ! i - zm ! j)))"
  proof (intro impI)
    assume "zamin < z ! i \<and> z ! i < zamax \<and> zpmin < z ! i \<and> z ! i < zpmax" and s: "sorted zm"
    then have "np_interp (z ! i) zm ym = Inr (Y ! i)" using ei by blast
    from np_interp_table[OF this s]
    show "(z ! i < zm ! 0 \<longrightarrow> Y ! i = ym ! 0)
        \<and> (last zm \<le> z ! i \<longrightarrow> Y ! i = last ym)
        \<and> (\<forall>j. j + 1 < length zm \<and> zm ! j \<le> z ! i \<and> z ! i < zm ! (j + 1) \<longrightarrow>
              Y ! i = ym ! j
                + (ym ! (j + 1) - ym ! j) / (zm ! (j + 1) - zm ! j) * (z ! i - zm ! j))" .
  qed
  show "(z ! i \<le> zamin \<longrightarrow> Y ! i = yamin)
         \<and> (zamin < z ! i \<and> zamax \<le> z ! i \<longrightarrow> Y ! i = yamax)
         \<and> (zamin < z ! i \<and> z ! i < zamax \<and> z ! i \<le> zpmin \<longrightarrow>
               np_interp (z ! i) [zamin, zpmin] [yamin, ypmin] = Inr (Y ! i)
               \<and> Y ! i = yamin + (ypmin - yamin) / (zpmin - zamin) * (z ! i - zamin))
         \<and> (zamin < z ! i \<and> z ! i < zamax \<and> zpmin < z ! i \<and> zpmax \<le> z ! i \<longrightarrow>
               np_interp (z ! i) [zpmax, zamax] [ypmax, yamax] = Inr (Y ! i)
               \<and> Y ! i = ypmax + (yamax - ypmax) / (zamax - zpmax) * (z ! i - zpmax))
         \<and> (zamin < z ! i \<and> z ! i < zamax \<and> zpmin < z ! i \<and> z ! i < zpmax \<longrightarrow>
               np_interp (z ! i) zm ym = Inr (Y ! i)
               \<and> (sorted zm \<longrightarrow>
                    (z ! i < zm ! 0 \<longrightarrow> Y ! i = ym ! 0)
                  \<and> (last zm \<le> z ! i \<longrightarrow> Y ! i = last ym)
                  \<and> (\<forall>j. j + 1 < length zm \<and> zm ! j \<le> z ! i \<and> z ! i < zm ! (j + 1) \<longrightarrow>
                        Y ! i = ym ! j
                          + (ym ! (j + 1) - ym ! j) / (zm ! (j + 1) - zm ! j) * (z ! i - zm ! j))))
         \<and> Z2Y_region (z ! i) zamin zpmin zpmax zamax \<noteq> Untouched"
    using ei tab by blast
  qed
  show "length Y = length z
      \<and> (\<forall>i<length z.
           (z ! i \<le> zamin \<longrightarrow> Y ! i = yamin)
         \<and> (zamin < z ! i \<and> zamax \<le> z ! i \<longrightarrow> Y ! i = yamax)
         \<and> (zamin < z ! i \<and> z ! i < zamax \<and> z ! i \<le> zpmin \<longrightarrow>
               np_interp (z ! i) [zamin, zpmin] [yamin, ypmin] = Inr (Y ! i)
               \<and> Y ! i = yamin + (ypmin - yamin) / (zpmin - zamin) * (z ! i - zamin))
         \<and> (zamin < z ! i \<and> z ! i < zamax \<and> zpmin < z ! i \<and> zpmax \<le> z ! i \<longrightarrow>
               np_interp (z ! i) [zpmax, zamax] [ypmax, yamax] = Inr (Y ! i)
               \<and> Y ! i = ypmax + (yamax - ypmax) / (zamax - zpmax) * (z ! i - zpmax))
         \<and> (zamin < z ! i \<and> z ! i < zamax \<and> zpmin < z ! i \<and> z ! i < zpmax \<longrightarrow>
               np_interp (z ! i) zm ym = Inr (Y ! i)
               \<and> (sorted zm \<longrightarrow>
                    (z ! i < zm ! 0 \<longrightarrow> Y ! i = ym ! 0)
                  \<and> (last zm \<le> z ! i \<longrightarrow> Y ! i = last ym)
                  \<and> (\<forall>j. j + 1 < length zm \<and> zm ! j \<le> z ! i \<and> z ! i < zm ! (j + 1) \<longrightarrow>
                        Y ! i = ym ! j
                          + (ym ! (j + 1) - ym ! j) / (zm ! (j + 1) - zm ! j) * (z ! i - zm ! j))))
         \<and> Z2Y_region (z ! i) zamin zpmin zpmax zamax \<noteq> Untouched)"
    using len els by (rule conjI)
  qed
qed

theorem Z2Y_linear_regions_witness:
  "Z2Y_linear [0, 10, 3 / 2, 17 / 2, 6] [2, 3, 5, 7, 8] [- 2, - 1, 0, 1, 2] 1 (- 3) 2 (- 2) 8 2 9 3
      = Inr [- 3, 3, - 5 / 2, 5 / 2, 1 / 2]
   \<and> sorted [2, 3, 5, 7, 8 :: real]
   \<and> [- 3, 3, - 5 / 2, 5 / 2, 1 / 2 :: real] ! 4
       = [- 2, - 1, 0, 1, 2 :: real] ! 2
          + ([- 2, - 1, 0, 1, 2 :: real] ! (2 + 1) - [- 2, - 1, 0, 1, 2 :: real] ! 2)
              / ([2, 3, 5, 7, 8 :: real] ! (2 + 1) - [2, 3, 5, 7, 8 :: real] ! 2)
              * ([0, 10, 3 / 2, 17 / 2, 6 :: real] ! 4 - [2, 3, 5, 7, 8 :: real] ! 2)
   \<and> [2, 3, 5, 7, 8 :: real] \<noteq> [] \<and> length [- 2, - 1, 0, 1, 2 :: real] = length [2, 3, 5, 7, 8 :: real]
   \<and> (\<exists>Y. Z2Y_linear [4] [2, 3, 5, 7, 8] [- 2, - 1, 0, 1, 2] 1 (- 3) 2 (- 2) 8 2 9 3 = Inr Y)"
proof -
  have ev: "Z2Y_linear [0, 10, 3 / 2, 17 / 2, 6] [2, 3, 5, 7, 8] [- 2, - 1, 0, 1, 2] 1 (- 3) 2 (- 2) 8 2 9 3
      = Inr [- 3, 3, - 5 / 2, 5 / 2, 1 / 2]"
    by (simp add: Z2Y_linear_def Z2Y_value_def Z2Y_region_def np_interp_def
        binary_search_with_guess_def linear_search_def clamp_guess_def guess_search_def
        bisect.simps Let_def eval_nat_numeral)
  have srt: "sorted [2, 3, 5, 7, 8 :: real]" by simp
  note t = Z2Y_linear_regions[where z = "[0, 10, 3 / 2, 17 / 2, 6]" and zm = "[2, 3, 5, 7, 8]"
      and ym = "[- 2, - 1, 0, 1, 2]"
      and zamin = 1 and yamin = "- 3" and zpmin = 2 and ypmin = "- 2" and zpmax = 8 and ypmax = 2
      and zamax = 9 and yamax = 3]
  have i4: "4 < length [0, 10, 3 / 2, 17 / 2, 6 :: real]" by simp
  have inside: "1 < [0, 10, 3 / 2, 17 / 2, 6 :: real] ! 4 \<and> [0, 10, 3 / 2, 17 / 2, 6 :: real] ! 4 < 9
        \<and> 2 < [0, 10, 3 / 2, 17 / 2, 6 :: real] ! 4 \<and> [0, 10, 3 / 2, 17 / 2, 6 :: real] ! 4 < 8"
    by simp
  have seg: "2 + 1 < length [2, 3, 5, 7, 8 :: real]
        \<and> [2, 3, 5, 7, 8 :: real] ! 2 \<le> [0, 10, 3 / 2, 17 / 2, 6 :: real] ! 4
        \<and> [0, 10, 3 / 2, 17 / 2, 6 :: real] ! 4 < [2, 3, 5, 7, 8 :: real] ! (2 + 1)"
    by simp
  have a: "[- 3, 3, - 5 / 2, 5 / 2, 1 / 2 :: real] ! 4
       = [- 2, - 1, 0, 1, 2 :: real] ! 2
          + ([- 2, - 1, 0, 1, 2 :: real] ! (2 + 1) - [- 2, - 1, 0, 1, 2 :: real] ! 2)
              / ([2, 3, 5, 7, 8 :: real] ! (2 + 1) - [2, 3, 5, 7, 8 :: real] ! 2)
              * ([0, 10, 3 / 2, 17 / 2, 6 :: real] ! 4 - [2, 3, 5, 7, 8 :: real] ! 2)"
    using t ev i4 inside srt seg by blast
  have h: "[2, 3, 5, 7, 8 :: real] \<noteq> [] \<and> length [- 2, - 1, 0, 1, 2 :: real] = length [2, 3, 5, 7, 8 :: real]"
    by simp
  have b: "\<exists>Y. Z2Y_linear [4] [2, 3, 5, 7, 8] [- 2, - 1, 0, 1, 2] 1 (- 3) 2 (- 2) 8 2 9 3 = Inr Y"
    using Z2Y_linear_regions[where z = "[4]" and zm = "[2, 3, 5, 7, 8]" and ym = "[- 2, - 1, 0, 1, 2]"
      and zamin = 1 and yamin = "- 3" and zpmin = 2 and ypmin = "- 2" and zpmax = 8 and ypmax = 2
      and zamax = 9 and yamax = 3] h by blast
  show ?thesis using ev srt a h b by blast
qed

end
